theory Spec2Isabelle
  imports Main
begin

section \<open>Reflection data: kinds, types, struct fields, values\<close>

text \<open>
  The binder of \<^verbatim>\<open>env.go\<close> works through Go's \<^verbatim>\<open>reflect\<close> package. The model keeps
  what the program reads from it: the kind of a type, its element type, the fields of a
  struct type (name, export status, embedding, tags, type), and the values stored.

  A defined (named) type is a reference by name; its declaration is looked up in the
  \<open>underlying\<close> table of the world, so recursive type declarations are expressible.
  \<open>Basic k\<close> is the predeclared type of a scalar kind, and also stands for the types of
  the kinds the program never looks into (arrays, maps, channels, functions,
  interfaces). The kinds have the names of \<^verbatim>\<open>reflect\<close>, but for \<^verbatim>\<open>reflect.Int\<close>, which is
  \<open>IntK\<close> here.
\<close>

datatype kind =
    Invalid | Bool | IntK | Int8 | Int16 | Int32 | Int64
  | Uint | Uint8 | Uint16 | Uint32 | Uint64 | Uintptr
  | Float32 | Float64 | Complex64 | Complex128
  | Array | Chan | Func | Interface | Map | Ptr | Slice | String | Struct | UnsafePointer

datatype gotype =
    Basic kind
  | Named string
  | PtrTo gotype
  | SliceOf gotype
  | StructOf "sfield list"
and sfield =
    StructField (Name: string) (Exported: bool) (Anonymous: bool)
                (Type: gotype) (Tag: "(string \<times> string) list")

text \<open>Floating-point numbers are carried, never computed with.\<close>

datatype fl = Finite int int | Inf bool | NaN

text \<open>
  Stored values. A pointer owns its pointee (\<open>VPtr None\<close> is nil): the object graph is a
  tree, so two fields never alias and no structure is cyclic.
\<close>

datatype val =
    VBool bool | VInt int | VUint nat | VFloat fl | VString string
  | VPtr "val option" | VSlice "val list" | VStruct "val list" | VOpaque string

text \<open>An \<^verbatim>\<open>interface{}\<close> value: nil, or a dynamic type with a value.\<close>

datatype iface = NilIface | Iface gotype val

section \<open>Errors\<close>

datatype numErr = ErrSyntax | ErrRange

text \<open>
  What a conversion function or \<^verbatim>\<open>UnmarshalText\<close> returns as its error:
  a \<^verbatim>\<open>*strconv.NumError{Func, Num, Err}\<close>, or any other error with its message.
\<close>

datatype cause = NumError string string numErr | TextError string

text \<open>
  The errors \<^verbatim>\<open>Parse\<close> returns, one constructor per message of the source, carrying the
  arguments of the format string. \<open>Panic\<close> is a run-time panic, which no caller of
  \<^verbatim>\<open>Parse\<close> receives as an error; its argument names the operation that panics.
\<close>

datatype error =
    ErrNotAStructPtr
  | ErrRequired string
  | ErrOption string
  | parseError sfield cause
  | ErrNoParser string gotype
  | ErrPtrSlice string gotype
  | Panic string

type_synonym ParserFunc = "string \<Rightarrow> iface \<times> cause option"

type_synonym CustomParsers = "gotype \<Rightarrow> ParserFunc option"

section \<open>The collaborators outside the file\<close>

text \<open>
  Everything \<^verbatim>\<open>env.go\<close> obtains from outside is a field of the world: the process
  environment (\<^verbatim>\<open>os.LookupEnv\<close>, \<^verbatim>\<open>os.ExpandEnv\<close>), \<^verbatim>\<open>strconv.ParseFloat\<close>, the type
  declarations and zero values known to \<^verbatim>\<open>reflect\<close>, assignability and conversion
  between distinct types, the method sets (which types implement
  \<^verbatim>\<open>encoding.TextUnmarshaler\<close>, and what their \<^verbatim>\<open>UnmarshalText\<close> does to the pointee),
  and the two conversion functions of the \<^verbatim>\<open>parsers\<close> package.
\<close>

record world =
  LookupEnv :: "string \<Rightarrow> string option"
  ExpandEnv :: "string \<Rightarrow> string"
  ParseFloat :: "string \<Rightarrow> nat \<Rightarrow> fl \<times> cause option"
  underlying :: "string \<Rightarrow> gotype"
  Zero :: "gotype \<Rightarrow> val"
  assignableOther :: "gotype \<Rightarrow> gotype \<Rightarrow> bool"
  convertOther :: "gotype \<Rightarrow> val \<Rightarrow> gotype \<Rightarrow> val option"
  implementsTU :: "gotype \<Rightarrow> bool"
  UnmarshalText :: "gotype \<Rightarrow> val \<Rightarrow> string \<Rightarrow> val \<times> cause option"
  URLFunc :: ParserFunc
  DurationFunc :: ParserFunc

subsection \<open>Queries on types\<close>

fun kind_lit :: "gotype \<Rightarrow> kind" where
  "kind_lit (Basic k) = k"
| "kind_lit (Named n) = Invalid"
| "kind_lit (PtrTo t) = Ptr"
| "kind_lit (SliceOf t) = Slice"
| "kind_lit (StructOf fs) = Struct"

definition kind_of :: "world \<Rightarrow> gotype \<Rightarrow> kind" where
  "kind_of w ty = (case ty of Named n \<Rightarrow> kind_lit (underlying w n) | _ \<Rightarrow> kind_lit ty)"

fun elem_lit :: "gotype \<Rightarrow> gotype option" where
  "elem_lit (PtrTo t) = Some t"
| "elem_lit (SliceOf t) = Some t"
| "elem_lit _ = None"

text \<open>\<^verbatim>\<open>Type.Elem()\<close>; \<open>None\<close> where \<^verbatim>\<open>reflect\<close> panics.\<close>

definition Elem :: "world \<Rightarrow> gotype \<Rightarrow> gotype option" where
  "Elem w ty = (case ty of Named n \<Rightarrow> elem_lit (underlying w n) | _ \<Rightarrow> elem_lit ty)"

fun fields_lit :: "gotype \<Rightarrow> sfield list option" where
  "fields_lit (StructOf fs) = Some fs"
| "fields_lit _ = None"

text \<open>\<^verbatim>\<open>Type.NumField()\<close> and \<^verbatim>\<open>Type.Field(i)\<close>; \<open>None\<close> where \<^verbatim>\<open>reflect\<close> panics.\<close>

definition Fields :: "world \<Rightarrow> gotype \<Rightarrow> sfield list option" where
  "Fields w ty = (case ty of Named n \<Rightarrow> fields_lit (underlying w n) | _ \<Rightarrow> fields_lit ty)"

text \<open>\<^verbatim>\<open>StructTag.Get\<close>: the value of the first entry for the key, the empty string
  when there is none.\<close>

definition Tag_Get :: "(string \<times> string) list \<Rightarrow> string \<Rightarrow> string" where
  "Tag_Get tag key = (case map_of tag key of None \<Rightarrow> [] | Some v \<Rightarrow> v)"

definition IsNil :: "val \<Rightarrow> bool" where
  "IsNil v = (v = VPtr None)"

text \<open>
  \<^verbatim>\<open>Value.Set\<close> on a field: it panics on a value that is not settable, that is one
  reached through an unexported field. Every field the walk reaches is addressable,
  the root being the pointee of a pointer.
\<close>

definition Value_Set :: "bool \<Rightarrow> val \<Rightarrow> val \<Rightarrow> val \<times> error option" where
  "Value_Set canSet old new =
     (if canSet then (new, None)
      else (old, Some (Panic ''Value.Set'')))"

text \<open>
  Assignability of a dynamic type to a field type, and \<^verbatim>\<open>Value.Convert\<close>. Identical types
  are assignable, and a conversion between two types of the same scalar kind keeps the
  value; every other case is the world's.
\<close>

definition AssignableTo :: "world \<Rightarrow> gotype \<Rightarrow> gotype \<Rightarrow> bool" where
  "AssignableTo w ty target = (ty = target \<or> assignableOther w ty target)"

definition scalar_kind :: "kind \<Rightarrow> bool" where
  "scalar_kind k = (k \<in> {Bool, IntK, Int8, Int16, Int32, Int64, Uint, Uint8, Uint16, Uint32,
                          Uint64, Float32, Float64, String})"

definition Convert :: "world \<Rightarrow> iface \<Rightarrow> gotype \<Rightarrow> val option" where
  "Convert w r target =
     (case r of
        NilIface \<Rightarrow> None
      | Iface ty x \<Rightarrow>
          if kind_of w ty = kind_of w target \<and> scalar_kind (kind_of w ty) then Some x
          else convertOther w ty x target)"

section \<open>Strings\<close>

text \<open>\<^verbatim>\<open>strings.ToLower\<close> on the ASCII letters, which decide the comparison with
  \<^verbatim>\<open>"true"\<close>: no other character has one of \<^verbatim>\<open>t r u e\<close> as its lower case.\<close>

definition lower_char :: "char \<Rightarrow> char" where
  "lower_char c =
     (if 65 \<le> (of_char c :: nat) \<and> (of_char c :: nat) \<le> 90
      then char_of ((of_char c :: nat) + 32) else c)"

definition ToLower :: "string \<Rightarrow> string" where
  "ToLower s = map lower_char s"

text \<open>\<^verbatim>\<open>strings.Split\<close> with a non-empty separator: cut at each occurrence, leftmost
  first, occurrences not overlapping. \<open>cur\<close> is the part being read.\<close>

function splitFrom :: "string \<Rightarrow> string \<Rightarrow> string \<Rightarrow> string list" where
  "splitFrom sep cur [] = [cur]"
| "splitFrom sep cur (c # cs) =
     (if sep \<noteq> [] \<and> take (length sep) (c # cs) = sep
      then cur # splitFrom sep [] (drop (length sep) (c # cs))
      else splitFrom sep (cur @ [c]) cs)"
  by pat_completeness auto
termination
  by (relation "measure (\<lambda>(sep, cur, s). length s)") auto

text \<open>With the empty separator Go cuts after each character; the program never
  passes it.\<close>

definition Split :: "string \<Rightarrow> string \<Rightarrow> string list" where
  "Split s sep = (if sep = [] then map (\<lambda>c. [c]) s else splitFrom sep [] s)"

section \<open>The scalar conversion table\<close>

definition ParseBool :: "string \<Rightarrow> bool \<times> cause option" where
  "ParseBool str =
     (if str \<in> {''1'', ''t'', ''T'', ''true'', ''TRUE'', ''True''} then (True, None)
      else if str \<in> {''0'', ''f'', ''F'', ''false'', ''FALSE'', ''False''} then (False, None)
      else (False, Some (NumError ''ParseBool'' str ErrSyntax)))"

definition is_digit :: "char \<Rightarrow> bool" where
  "is_digit c = (48 \<le> (of_char c :: nat) \<and> (of_char c :: nat) \<le> 57)"

definition digit_val :: "char \<Rightarrow> nat" where
  "digit_val c = (of_char c :: nat) - 48"

definition maxUint64 :: nat where
  "maxUint64 = 2 ^ 64 - 1"

text \<open>
  The digit loop of \<^verbatim>\<open>strconv.ParseUint\<close> in base 10: \<open>n\<close> is the number read so far,
  \<open>None\<close> a syntax error; a number over \<open>maxVal\<close> ends the loop at once with the range
  error, the rest of the string unread. On \<open>nat\<close> the test \<^verbatim>\<open>n1 < n\<close> for a wrapped
  sum never holds, and \<open>n \<ge> cutoff\<close> stands for the product that would wrap.
\<close>

fun uintLoop :: "nat \<Rightarrow> string \<Rightarrow> nat \<Rightarrow> (nat \<times> numErr option) option" where
  "uintLoop maxVal [] n = Some (n, None)"
| "uintLoop maxVal (c # cs) n =
     (if \<not> is_digit c then None
      else if n \<ge> maxUint64 div 10 + 1 then Some (maxVal, Some ErrRange)
      else let n1 = n * 10 + digit_val c in
        if n1 > maxVal then Some (maxVal, Some ErrRange)
        else uintLoop maxVal cs n1)"

definition ParseUint :: "string \<Rightarrow> nat \<Rightarrow> nat \<times> cause option" where
  "ParseUint s bitSize =
     (if s = [] then (0, Some (NumError ''ParseUint'' s ErrSyntax))
      else case uintLoop (2 ^ bitSize - 1) s 0 of
             None \<Rightarrow> (0, Some (NumError ''ParseUint'' s ErrSyntax))
           | Some (n, None) \<Rightarrow> (n, None)
           | Some (n, Some e) \<Rightarrow> (n, Some (NumError ''ParseUint'' s e)))"

text \<open>\<^verbatim>\<open>strconv.ParseInt\<close> in base 10: an optional sign, then \<^verbatim>\<open>ParseUint\<close>, then the
  range of the signed type.\<close>

definition ParseInt :: "string \<Rightarrow> nat \<Rightarrow> int \<times> cause option" where
  "ParseInt s0 bitSize =
     (if s0 = [] then (0, Some (NumError ''ParseInt'' s0 ErrSyntax))
      else
        let neg = (hd s0 = CHR ''-'');
            s = (if hd s0 = CHR ''+'' \<or> hd s0 = CHR ''-'' then tl s0 else s0);
            cutoff = (2::nat) ^ (bitSize - 1)
        in case ParseUint s bitSize of
             (un, Some (NumError f num ErrSyntax)) \<Rightarrow> (0, Some (NumError ''ParseInt'' s0 ErrSyntax))
           | (un, Some (TextError m)) \<Rightarrow> (0, Some (TextError m))
           | (un, _) \<Rightarrow>
               if \<not> neg \<and> un \<ge> cutoff then (int cutoff - 1, Some (NumError ''ParseInt'' s0 ErrRange))
               else if neg \<and> un > cutoff then (- int cutoff, Some (NumError ''ParseInt'' s0 ErrRange))
               else (if neg then - int un else int un, None))"

definition intParser :: "kind \<Rightarrow> nat \<Rightarrow> ParserFunc" where
  "intParser k bitSize v = (case ParseInt v bitSize of (i, err) \<Rightarrow> (Iface (Basic k) (VInt i), err))"

definition uintParser :: "kind \<Rightarrow> nat \<Rightarrow> ParserFunc" where
  "uintParser k bitSize v = (case ParseUint v bitSize of (i, err) \<Rightarrow> (Iface (Basic k) (VUint i), err))"

definition floatParser :: "world \<Rightarrow> kind \<Rightarrow> nat \<Rightarrow> ParserFunc" where
  "floatParser w k bitSize v = (case ParseFloat w v bitSize of (f, err) \<Rightarrow> (Iface (Basic k) (VFloat f), err))"

text \<open>The table \<^verbatim>\<open>defaultBuiltInParsers\<close>, entry by entry, with the bit size each entry
  passes to \<^verbatim>\<open>strconv\<close>.\<close>

definition defaultBuiltInParsers :: "world \<Rightarrow> kind \<Rightarrow> ParserFunc option" where
  "defaultBuiltInParsers w k =
     (case k of
        Bool \<Rightarrow> Some (\<lambda>v. case ParseBool v of (b, err) \<Rightarrow> (Iface (Basic Bool) (VBool b), err))
      | String \<Rightarrow> Some (\<lambda>v. (Iface (Basic String) (VString v), None))
      | IntK \<Rightarrow> Some (intParser IntK 32)
      | Int16 \<Rightarrow> Some (intParser Int16 16)
      | Int32 \<Rightarrow> Some (intParser Int32 32)
      | Int64 \<Rightarrow> Some (intParser Int64 64)
      | Int8 \<Rightarrow> Some (intParser Int8 8)
      | Uint \<Rightarrow> Some (uintParser Uint 32)
      | Uint16 \<Rightarrow> Some (uintParser Uint16 16)
      | Uint32 \<Rightarrow> Some (uintParser Uint32 32)
      | Uint64 \<Rightarrow> Some (uintParser Uint64 64)
      | Uint8 \<Rightarrow> Some (uintParser Uint8 8)
      | Float64 \<Rightarrow> Some (floatParser w Float64 64)
      | Float32 \<Rightarrow> Some (floatParser w Float32 32)
      | _ \<Rightarrow> None)"

section \<open>The custom conversion registry\<close>

text \<open>Modelled from the spec: the package \<^verbatim>\<open>parsers\<close> is not among the sources; its two
  type keys are the URL and the duration type, its two functions are the world's.\<close>

definition URLType :: gotype where
  "URLType = Named ''url.URL''"

definition DurationType :: gotype where
  "DurationType = Named ''time.Duration''"

definition defaultCustomParsers :: "world \<Rightarrow> CustomParsers" where
  "defaultCustomParsers w = [URLType \<mapsto> URLFunc w, DurationType \<mapsto> DurationFunc w]"

section \<open>The key resolver\<close>

definition parseKeyForOption :: "string \<Rightarrow> string \<times> string list" where
  "parseKeyForOption key =
     (case Split key '','' of opt # opts \<Rightarrow> (opt, opts) | [] \<Rightarrow> ([], []))"

definition getRequired :: "world \<Rightarrow> string \<Rightarrow> string \<times> error option" where
  "getRequired w key =
     (case LookupEnv w key of Some value \<Rightarrow> (value, None) | None \<Rightarrow> ([], Some (ErrRequired key)))"

definition getOr :: "world \<Rightarrow> string \<Rightarrow> string \<Rightarrow> string" where
  "getOr w key defaultValue =
     (case LookupEnv w key of Some value \<Rightarrow> value | None \<Rightarrow> defaultValue)"

text \<open>One round of the loop over the options in \<^verbatim>\<open>get\<close>: the pair is \<^verbatim>\<open>(val, err)\<close>.\<close>

definition optStep :: "world \<Rightarrow> string \<Rightarrow> string \<times> error option \<Rightarrow> string \<Rightarrow> string \<times> error option" where
  "optStep w key r opt =
     (if opt = [] then r
      else if opt = ''required'' then getRequired w key
      else (fst r, Some (ErrOption opt)))"

definition get :: "world \<Rightarrow> sfield \<Rightarrow> string \<times> error option" where
  "get w field =
     (case parseKeyForOption (Tag_Get (Tag field) ''env'') of (key, opts) \<Rightarrow>
        let defaultValue = Tag_Get (Tag field) ''envDefault'';
            val = getOr w key defaultValue;
            expandVar = Tag_Get (Tag field) ''envExpand'';
            val = (if ToLower expandVar = ''true'' then ExpandEnv w val else val)
        in foldl (optStep w key) (val, None) opts)"

section \<open>The value setter and the collection handler\<close>

definition newParseError :: "sfield \<Rightarrow> cause option \<Rightarrow> error option" where
  "newParseError sf err = (case err of None \<Rightarrow> None | Some e \<Rightarrow> Some (parseError sf e))"

definition newNoParserError :: "sfield \<Rightarrow> error" where
  "newNoParserError sf = ErrNoParser (Name sf) (Type sf)"

text \<open>
  \<^verbatim>\<open>handleTextUnmarshaler\<close>. \<open>canSet\<close> says that the field value is settable; both
  \<^verbatim>\<open>Value.Set\<close> and \<^verbatim>\<open>Value.Interface\<close> panic on one that is not. The receiver of
  \<^verbatim>\<open>UnmarshalText\<close> is the field itself when it is a pointer, the address of the field
  otherwise, so the method writes into the field's own storage.
\<close>

definition handleTextUnmarshaler :: "world \<Rightarrow> bool \<Rightarrow> val \<Rightarrow> string \<Rightarrow> sfield \<Rightarrow> val \<times> error option" where
  "handleTextUnmarshaler w canSet field value sf =
     (if kind_of w (Type sf) = Ptr then
        (case (if IsNil field
               then (case Elem w (Type sf) of
                       None \<Rightarrow> (field, Some (Panic ''Type.Elem''))
                     | Some t \<Rightarrow> Value_Set canSet field (VPtr (Some (Zero w t))))
               else (field, None)) of
           (field', Some p) \<Rightarrow> (field', Some p)
         | (field', None) \<Rightarrow>
             if \<not> canSet then (field', Some (Panic ''Value.Interface''))
             else if \<not> implementsTU w (Type sf) then (field', Some (newNoParserError sf))
             else (case field' of
                     VPtr (Some x) \<Rightarrow>
                       (case UnmarshalText w (Type sf) x value of
                          (x', err) \<Rightarrow> (VPtr (Some x'), newParseError sf err))
                   | _ \<Rightarrow> (field', Some (Panic ''UnmarshalText''))))
      else
        if \<not> canSet then (field, Some (Panic ''Value.Interface''))
        else if \<not> implementsTU w (PtrTo (Type sf)) then (field, Some (newNoParserError sf))
        else (case UnmarshalText w (PtrTo (Type sf)) field value of
                (x', err) \<Rightarrow> (x', newParseError sf err)))"

text \<open>
  The loop of \<^verbatim>\<open>parseTextUnmarshalers\<close>: one fresh zero element per part, unmarshalled
  in place, stored as a pointer when the element type is a pointer type. \<open>recv\<close> is
  the receiver type, \<open>t\<close> the type of what it points to.
\<close>

fun unmarshalParts :: "world \<Rightarrow> sfield \<Rightarrow> bool \<Rightarrow> gotype \<Rightarrow> gotype \<Rightarrow> string list \<Rightarrow> error + val list" where
  "unmarshalParts w sf isPtr recv t [] = Inr []"
| "unmarshalParts w sf isPtr recv t (v # data) =
     (if \<not> implementsTU w recv then Inl (Panic ''type assertion'')
      else case UnmarshalText w recv (Zero w t) v of
             (x, Some err) \<Rightarrow> Inl (parseError sf err)
           | (x, None) \<Rightarrow>
               (case unmarshalParts w sf isPtr recv t data of
                  Inl e \<Rightarrow> Inl e
                | Inr xs \<Rightarrow> Inr ((if isPtr then VPtr (Some x) else x) # xs)))"

definition parseTextUnmarshalers :: "world \<Rightarrow> bool \<Rightarrow> val \<Rightarrow> string list \<Rightarrow> sfield \<Rightarrow> val \<times> error option" where
  "parseTextUnmarshalers w canSet field data sf =
     (case Elem w (Type sf) of
        None \<Rightarrow> (field, Some (Panic ''Type.Elem''))
      | Some elemType \<Rightarrow>
          if kind_of w elemType = Ptr then
            (case Elem w elemType of
               None \<Rightarrow> (field, Some (Panic ''Type.Elem''))
             | Some t \<Rightarrow>
                 (case unmarshalParts w sf True (PtrTo t) t data of
                    Inl e \<Rightarrow> (field, Some e)
                  | Inr slice \<Rightarrow> Value_Set canSet field (VSlice slice)))
          else
            (case unmarshalParts w sf False (PtrTo elemType) elemType data of
               Inl e \<Rightarrow> (field, Some e)
             | Inr slice \<Rightarrow> Value_Set canSet field (VSlice slice)))"

text \<open>
  The loop of \<^verbatim>\<open>handleSlice\<close> over the parts, \<open>result\<close> being the slice built so far:
  convert the part, convert the value to the element type, then refuse a pointer
  element type, then append.
\<close>

fun convertParts :: "world \<Rightarrow> sfield \<Rightarrow> ParserFunc \<Rightarrow> gotype \<Rightarrow> bool \<Rightarrow> string list \<Rightarrow> val list \<Rightarrow> error + val list" where
  "convertParts w sf parserFunc elemType ptrElem [] result = Inr result"
| "convertParts w sf parserFunc elemType ptrElem (part # parts) result =
     (case parserFunc part of
        (r, Some err) \<Rightarrow> Inl (parseError sf err)
      | (r, None) \<Rightarrow>
          (case Convert w r elemType of
             None \<Rightarrow> Inl (Panic ''Value.Convert'')
           | Some v \<Rightarrow>
               if ptrElem then Inl (ErrPtrSlice (Name sf) (Type sf))
               else convertParts w sf parserFunc elemType ptrElem parts (result @ [v])))"

definition handleSlice :: "world \<Rightarrow> bool \<Rightarrow> val \<Rightarrow> string \<Rightarrow> sfield \<Rightarrow> CustomParsers \<Rightarrow> val \<times> error option" where
  "handleSlice w canSet field value sf funcMap =
     (let separator = Tag_Get (Tag sf) ''envSeparator'';
          separator = (if separator = [] then '','' else separator);
          parts = Split value separator
      in case Elem w (Type sf) of
           None \<Rightarrow> (field, Some (Panic ''Type.Elem''))
         | Some elemType0 \<Rightarrow>
             (case (if kind_of w elemType0 = Ptr then Elem w elemType0 else Some elemType0) of
                None \<Rightarrow> (field, Some (Panic ''Type.Elem''))
              | Some elemType \<Rightarrow>
                  if implementsTU w (PtrTo elemType) then parseTextUnmarshalers w canSet field parts sf
                  else
                    (case (case funcMap elemType of
                             Some f \<Rightarrow> Some f
                           | None \<Rightarrow> defaultBuiltInParsers w (kind_of w elemType)) of
                       None \<Rightarrow> (field, Some (newNoParserError sf))
                     | Some parserFunc \<Rightarrow>
                         (case convertParts w sf parserFunc elemType (kind_of w elemType0 = Ptr) parts [] of
                            Inl e \<Rightarrow> (field, Some e)
                          | Inr result \<Rightarrow> Value_Set canSet field (VSlice result)))))"

text \<open>\<^verbatim>\<open>set\<close>, named \<open>set_field\<close> here: the registry by the exact type of the field, then the
  table by its kind, then \<^verbatim>\<open>handleTextUnmarshaler\<close>.\<close>

definition set_field :: "world \<Rightarrow> bool \<Rightarrow> val \<Rightarrow> sfield \<Rightarrow> string \<Rightarrow> CustomParsers \<Rightarrow> val \<times> error option" where
  "set_field w canSet field sf value funcMap =
     (if kind_of w (Type sf) = Slice then handleSlice w canSet field value sf funcMap
      else case funcMap (Type sf) of
        Some parserFunc \<Rightarrow>
          (case parserFunc value of
             (val, Some err) \<Rightarrow> (field, newParseError sf (Some err))
           | (NilIface, None) \<Rightarrow> (field, Some (Panic ''Value.Set''))
           | (Iface ty x, None) \<Rightarrow>
               if AssignableTo w ty (Type sf) then Value_Set canSet field x
               else (field, Some (Panic ''Value.Set'')))
      | None \<Rightarrow>
          (case defaultBuiltInParsers w (kind_of w (Type sf)) of
             Some parserFunc \<Rightarrow>
               (case parserFunc value of
                  (val, Some err) \<Rightarrow> (field, newParseError sf (Some err))
                | (val, None) \<Rightarrow>
                    (case Convert w val (Type sf) of
                       None \<Rightarrow> (field, Some (Panic ''Value.Convert''))
                     | Some x \<Rightarrow> Value_Set canSet field x))
           | None \<Rightarrow> handleTextUnmarshaler w canSet field value sf))"

section \<open>The structure walker\<close>

text \<open>
  \<^verbatim>\<open>ParseWithFuncs\<close>, \<^verbatim>\<open>doParse\<close> and the loop of \<^verbatim>\<open>doParse\<close> over the fields, each
  returning the value it was given as the walk left it, with the error if any.
  \<open>sticky\<close> says that the struct was reached through an unexported, not embedded field:
  then none of its fields is settable. An unexported embedded field is itself not
  settable, its exported fields are. The call \<^verbatim>\<open>Parse(refField.Interface())\<close> is
  \<^verbatim>\<open>ParseWithFuncs\<close> with the empty map. The hook \<^verbatim>\<open>OnEnvVarSet\<close> is nil.
\<close>

function ParseWithFuncs :: "world \<Rightarrow> iface \<Rightarrow> CustomParsers \<Rightarrow> iface \<times> error option"
and doParse :: "world \<Rightarrow> bool \<Rightarrow> gotype \<Rightarrow> val \<Rightarrow> CustomParsers \<Rightarrow> val \<times> error option"
and doParseLoop :: "world \<Rightarrow> bool \<Rightarrow> sfield list \<Rightarrow> val list \<Rightarrow> CustomParsers \<Rightarrow> val list \<times> error option"
where
  "ParseWithFuncs w v funcMap =
     (case v of
        NilIface \<Rightarrow> (v, Some ErrNotAStructPtr)
      | Iface ty x \<Rightarrow>
          if kind_of w ty \<noteq> Ptr then (v, Some ErrNotAStructPtr)
          else (case x of
                  VPtr (Some s) \<Rightarrow>
                    (case Elem w ty of
                       None \<Rightarrow> (v, Some ErrNotAStructPtr)
                     | Some t \<Rightarrow>
                         if kind_of w t \<noteq> Struct then (v, Some ErrNotAStructPtr)
                         else (case doParse w False t s (defaultCustomParsers w ++ funcMap) of
                                 (s', err) \<Rightarrow> (Iface ty (VPtr (Some s')), err)))
                | _ \<Rightarrow> (v, Some ErrNotAStructPtr)))"
| "doParse w sticky refType ref funcMap =
     (case ref of
        VStruct vs \<Rightarrow>
          (case Fields w refType of
             None \<Rightarrow> (ref, Some (Panic ''Type.NumField''))
           | Some sfs \<Rightarrow>
               (case doParseLoop w sticky sfs vs funcMap of (vs', err) \<Rightarrow> (VStruct vs', err)))
      | _ \<Rightarrow> (ref, Some (Panic ''Type.NumField'')))"
| "doParseLoop w sticky [] vs funcMap = (vs, None)"
| "doParseLoop w sticky (sf # sfs) [] funcMap = ([], None)"
| "doParseLoop w sticky (sf # sfs) (v # vs) funcMap =
     (let canSet = \<not> (sticky \<or> \<not> Exported sf);
          sticky' = (sticky \<or> (\<not> Exported sf \<and> \<not> Anonymous sf))
      in
      if kind_of w (Type sf) = Ptr \<and> \<not> IsNil v \<and> canSet then
        (case ParseWithFuncs w (Iface (Type sf) v) Map.empty of
           (r, Some err) \<Rightarrow> ((case r of Iface ty v' \<Rightarrow> v' | NilIface \<Rightarrow> v) # vs, Some err)
         | (r, None) \<Rightarrow>
             (case doParseLoop w sticky sfs vs funcMap of
                (vs', e) \<Rightarrow> ((case r of Iface ty v' \<Rightarrow> v' | NilIface \<Rightarrow> v) # vs', e)))
      else
        (case get w sf of
           (value, Some err) \<Rightarrow> (v # vs, Some err)
         | (value, None) \<Rightarrow>
             if value = [] then
               (if kind_of w (Type sf) = Struct then
                  (case doParse w sticky' (Type sf) v funcMap of
                     (v', Some err) \<Rightarrow> (v' # vs, Some err)
                   | (v', None) \<Rightarrow>
                       (case doParseLoop w sticky sfs vs funcMap of (vs', e) \<Rightarrow> (v' # vs', e)))
                else
                  (case doParseLoop w sticky sfs vs funcMap of (vs', e) \<Rightarrow> (v # vs', e)))
             else
               (case set_field w canSet v sf value funcMap of
                  (v', Some err) \<Rightarrow> (v' # vs, Some err)
                | (v', None) \<Rightarrow>
                    (case doParseLoop w sticky sfs vs funcMap of (vs', e) \<Rightarrow> (v' # vs', e)))))"
  by pat_completeness auto
termination
  by (relation "measure (\<lambda>x. case x of
            Inl (w, v, fm) \<Rightarrow> (case v of NilIface \<Rightarrow> 0 | Iface ty x \<Rightarrow> size x)
          | Inr (Inl (w, st, ty, v, fm)) \<Rightarrow> size v
          | Inr (Inr (w, st, sfs, vs, fm)) \<Rightarrow> size_list size vs)") auto

definition Parse :: "world \<Rightarrow> iface \<Rightarrow> iface \<times> error option" where
  "Parse w v = ParseWithFuncs w v Map.empty"


section \<open>Auxiliary notions\<close>

text \<open>The body of the loop of \<^verbatim>\<open>doParse\<close> for one field: the value of the field as the
  round leaves it, and the error that ends the walk, if any.\<close>

definition fieldStep :: "world \<Rightarrow> bool \<Rightarrow> sfield \<Rightarrow> val \<Rightarrow> CustomParsers \<Rightarrow> val \<times> error option" where
  "fieldStep w sticky sf v funcMap =
     (let canSet = \<not> (sticky \<or> \<not> Exported sf);
          sticky' = (sticky \<or> (\<not> Exported sf \<and> \<not> Anonymous sf))
      in
      if kind_of w (Type sf) = Ptr \<and> \<not> IsNil v \<and> canSet then
        (case ParseWithFuncs w (Iface (Type sf) v) Map.empty of
           (r, err) \<Rightarrow> ((case r of Iface ty v' \<Rightarrow> v' | NilIface \<Rightarrow> v), err))
      else
        (case get w sf of
           (value, Some err) \<Rightarrow> (v, Some err)
         | (value, None) \<Rightarrow>
             if value = [] then
               (if kind_of w (Type sf) = Struct then doParse w sticky' (Type sf) v funcMap
                else (v, None))
             else set_field w canSet v sf value funcMap))"

text \<open>The base key and the option tokens of a field's \<^verbatim>\<open>env\<close> tag, as
  \<^verbatim>\<open>parseKeyForOption\<close> returns them.\<close>

definition envKey :: "sfield \<Rightarrow> string" where
  "envKey sf = fst (parseKeyForOption (Tag_Get (Tag sf) ''env''))"

definition envOpts :: "sfield \<Rightarrow> string list" where
  "envOpts sf = snd (parseKeyForOption (Tag_Get (Tag sf) ''env''))"

text \<open>The number a string of decimal digits denotes, and the integer a decimal
  numeral with an optional sign denotes: the numeric value of a resolved string.\<close>

definition decimal :: "string \<Rightarrow> nat" where
  "decimal ds = foldl (\<lambda>n c. n * 10 + digit_val c) 0 ds"

definition decimalNat :: "string \<Rightarrow> nat option" where
  "decimalNat ds = (if ds \<noteq> [] \<and> list_all is_digit ds then Some (decimal ds) else None)"

definition decimalInt :: "string \<Rightarrow> int option" where
  "decimalInt s =
     (case s of
        [] \<Rightarrow> None
      | c # r \<Rightarrow>
          if c = CHR ''-'' then map_option (\<lambda>n. - int n) (decimalNat r)
          else if c = CHR ''+'' then map_option int (decimalNat r)
          else map_option int (decimalNat s))"

section \<open>Example inputs\<close>

text \<open>
  A world for the examples: the environment is the argument; the defined types are
  \<^verbatim>\<open>Level\<close>, a string type, and \<^verbatim>\<open>Stamp\<close>, a struct type with one unexported field; the
  pointers to both implement \<^verbatim>\<open>encoding.TextUnmarshaler\<close>, refusing the text \<^verbatim>\<open>bad\<close> and
  leaving the receiver as it was; \<^verbatim>\<open>os.ExpandEnv\<close> is given on the one string the
  examples expand.
\<close>

definition exampleWorld :: "(string \<Rightarrow> string option) \<Rightarrow> world" where
  "exampleWorld env =
     \<lparr> LookupEnv = env,
       ExpandEnv = (\<lambda>s. if s = ''${HOME}/data'' then ''/root/data'' else s),
       ParseFloat = (\<lambda>s bitSize. (NaN, Some (NumError ''ParseFloat'' s ErrSyntax))),
       underlying = (\<lambda>n. if n = ''Level'' then Basic String
                          else if n = ''Stamp''
                          then StructOf [StructField ''text'' False False (Basic String) []]
                          else Basic Invalid),
       Zero = (\<lambda>t. case t of PtrTo _ \<Rightarrow> VPtr None | SliceOf _ \<Rightarrow> VSlice []
                     | Basic IntK \<Rightarrow> VInt 0
                     | Named n \<Rightarrow> if n = ''Stamp'' then VStruct [VString []] else VString []
                     | _ \<Rightarrow> VString []),
       assignableOther = (\<lambda>ty target. False),
       convertOther = (\<lambda>ty x target. None),
       implementsTU = (\<lambda>t. t = PtrTo (Named ''Level'') \<or> t = PtrTo (Named ''Stamp'')),
       UnmarshalText = (\<lambda>t x text.
                          if text = ''bad'' then (x, Some (TextError ''unknown text''))
                          else if t = PtrTo (Named ''Stamp'') then (VStruct [VString text], None)
                          else (VString text, None)),
       URLFunc = (\<lambda>s. (NilIface, Some (TextError ''unable to parse URL''))),
       DurationFunc = (\<lambda>s. (NilIface, Some (TextError ''unable to parse duration''))) \<rparr>"

definition hostField :: sfield where
  "hostField = StructField ''Host'' True False (Basic String)
                 [(''env'', ''HOST''), (''envDefault'', ''localhost'')]"

definition portField :: sfield where
  "portField = StructField ''Port'' True False (Basic IntK)
                 [(''env'', ''PORT,required''), (''envDefault'', ''8080'')]"

definition modeField :: "string \<Rightarrow> sfield" where
  "modeField tag = StructField ''Mode'' True False (Basic String) [(''env'', tag)]"

definition countField :: sfield where
  "countField = StructField ''Count'' True False (PtrTo (Basic IntK)) [(''env'', ''COUNT'')]"

definition dbField :: sfield where
  "dbField = StructField ''DB'' True False
               (StructOf [StructField ''Name'' True False (Basic String) [(''env'', ''DB_NAME'')]]) []"

definition idsField :: "gotype \<Rightarrow> sfield" where
  "idsField elemType = StructField ''IDs'' True False (SliceOf elemType) [(''env'', ''IDS'')]"

definition levelsField :: sfield where
  "levelsField = StructField ''Levels'' True False (SliceOf (Named ''Level''))
                   [(''env'', ''LEVELS''), (''envSeparator'', '';'')]"

definition levelField :: sfield where
  "levelField = StructField ''Level'' True False (PtrTo (Named ''Level'')) [(''env'', ''LEVEL'')]"

definition stampField :: sfield where
  "stampField = StructField ''Stamp'' True False (Named ''Stamp'') [(''env'', ''STAMP'')]"

definition dirField :: sfield where
  "dirField = StructField ''Dir'' True False (Basic String)
                [(''env'', ''DIR,required''), (''envExpand'', ''TRUE'')]"

definition poolField :: sfield where
  "poolField = StructField ''Pool'' True False
                 (PtrTo (StructOf [StructField ''Size'' True False (Basic String) [(''env'', ''POOL_SIZE'')]]))
                 [(''env'', ''POOL,required'')]"

definition sizeField :: sfield where
  "sizeField = StructField ''Size'' True False (Basic Uint) [(''env'', ''SIZE'')]"

definition answerParser :: ParserFunc where
  "answerParser v = (Iface (Basic IntK) (VInt 42), None)"

section \<open>Facts about the model\<close>

lemma kind_of_Basic [simp]: "kind_of w (Basic k) = k"
  by (simp add: kind_of_def)

lemma Fields_Struct: "Fields w ty = Some sfs \<Longrightarrow> kind_of w ty = Struct"
  by (cases ty; simp add: Fields_def kind_of_def; cases "underlying w (case ty of Named n \<Rightarrow> n)"; simp)



subsection \<open>The key resolver\<close>

lemma get_loop: "get w sf =
   foldl (optStep w (envKey sf))
     (if ToLower (Tag_Get (Tag sf) ''envExpand'') = ''true''
      then ExpandEnv w (getOr w (envKey sf) (Tag_Get (Tag sf) ''envDefault''))
      else getOr w (envKey sf) (Tag_Get (Tag sf) ''envDefault''), None) (envOpts sf)"
  by (simp add: get_def envKey_def envOpts_def Let_def split: prod.splits)

lemma optStep_required_present:
  assumes "LookupEnv w key = Some value"
  shows "''required'' \<in> set opts \<or> fst r = value \<Longrightarrow> fst (foldl (optStep w key) r opts) = value"
proof (induction opts arbitrary: r)
  case Nil
  then show ?case by simp
next
  case (Cons opt opts)
  have "''required'' \<in> set opts \<or> fst (optStep w key r opt) = value"
    using Cons.prems assms by (auto simp: optStep_def getRequired_def)
  then show ?case using Cons.IH by simp
qed

lemma optStep_no_error:
  assumes "LookupEnv w key = Some value" "\<forall>opt\<in>set opts. opt = [] \<or> opt = ''required''"
  shows "snd r = None \<Longrightarrow> snd (foldl (optStep w key) r opts) = None"
  using assms(2)
proof (induction opts arbitrary: r)
  case Nil
  then show ?case by simp
next
  case (Cons opt opts)
  have "snd (optStep w key r opt) = None"
    using Cons.prems assms(1) by (auto simp: optStep_def getRequired_def)
  then show ?case using Cons by simp
qed

lemma optStep_required_absent:
  assumes "LookupEnv w key = None" "\<forall>opt\<in>set opts. opt = [] \<or> opt = ''required''"
  shows "''required'' \<in> set opts \<or> r = ([], Some (ErrRequired key))
         \<Longrightarrow> foldl (optStep w key) r opts = ([], Some (ErrRequired key))"
  using assms(2)
proof (induction opts arbitrary: r)
  case Nil
  then show ?case by simp
next
  case (Cons opt opts)
  have "''required'' \<in> set opts \<or> optStep w key r opt = ([], Some (ErrRequired key))"
    using Cons.prems assms(1) by (auto simp: optStep_def getRequired_def)
  then show ?case using Cons by simp
qed

subsection \<open>The loop of the walker\<close>

lemma doParseLoop_Cons:
  "doParseLoop w sticky (sf # sfs) (v # vs) funcMap =
     (case fieldStep w sticky sf v funcMap of
        (v', Some err) \<Rightarrow> (v' # vs, Some err)
      | (v', None) \<Rightarrow> (case doParseLoop w sticky sfs vs funcMap of (vs', e) \<Rightarrow> (v' # vs', e)))"
  by (simp add: fieldStep_def Let_def split: prod.splits option.splits)

declare doParseLoop.simps(3) [simp del]

text \<open>The walk over a struct whose first fields are \<open>pre\<close>: it is the walk over \<open>pre\<close>,
  and, when that ends without an error, the walk over the remaining fields.\<close>

lemma doParseLoop_append:
  "length pre = length vpre \<Longrightarrow>
   doParseLoop w sticky (pre @ sfs) (vpre @ vs) funcMap =
     (case doParseLoop w sticky pre vpre funcMap of
        (vpre', Some err) \<Rightarrow> (vpre' @ vs, Some err)
      | (vpre', None) \<Rightarrow>
          (case doParseLoop w sticky sfs vs funcMap of (vs', e) \<Rightarrow> (vpre' @ vs', e)))"
proof (induction pre arbitrary: vpre)
  case Nil
  then show ?case by (simp split: prod.splits)
next
  case (Cons sf pre)
  then obtain v vpre0 where v: "vpre = v # vpre0" "length pre = length vpre0"
    by (cases vpre) auto
  show ?case
    unfolding v append_Cons doParseLoop_Cons Cons.IH [OF v(2)]
    by (simp split: prod.splits option.splits)
qed

lemma ParseWithFuncs_struct:
  assumes "Fields w ty = Some sfs"
  shows "ParseWithFuncs w (Iface (PtrTo ty) (VPtr (Some (VStruct vs)))) funcMap =
     (case doParseLoop w False sfs vs (defaultCustomParsers w ++ funcMap) of
        (vs', err) \<Rightarrow> (Iface (PtrTo ty) (VPtr (Some (VStruct vs'))), err))"
  using assms Fields_Struct [OF assms]
  by (simp add: kind_of_def Elem_def split: prod.splits)


declare ParseWithFuncs.simps [simp del] doParse.simps [simp del]


subsection \<open>The conversion table\<close>

lemma builtin_result:
  assumes "defaultBuiltInParsers w k = Some g"
  shows "scalar_kind k \<and> (\<exists>x. fst (g v) = Iface (Basic k) x)"
  using assms
  by (cases k; auto simp: defaultBuiltInParsers_def scalar_kind_def intParser_def uintParser_def
        floatParser_def split: prod.splits)

lemma builtin_Convert:
  assumes "defaultBuiltInParsers w (kind_of w ty) = Some g"
  shows "\<exists>x. fst (g v) = Iface (Basic (kind_of w ty)) x \<and> Convert w (fst (g v)) ty = Some x"
  using builtin_result [OF assms, of v] by (auto simp: Convert_def)

lemma foldl_digits_mono: "n \<le> foldl (\<lambda>n c. n * 10 + digit_val c) n ds"
proof (induction ds arbitrary: n)
  case Nil
  then show ?case by simp
next
  case (Cons c ds)
  have "n \<le> n * 10 + digit_val c" by simp
  also have "\<dots> \<le> foldl (\<lambda>n c. n * 10 + digit_val c) (n * 10 + digit_val c) ds" by (rule Cons.IH)
  finally show ?case by simp
qed

lemma uintLoop_digits:
  assumes "maxVal \<le> maxUint64"
  shows "list_all is_digit ds \<Longrightarrow> n \<le> maxVal \<Longrightarrow>
         uintLoop maxVal ds n =
           Some (if foldl (\<lambda>n c. n * 10 + digit_val c) n ds \<le> maxVal
                 then (foldl (\<lambda>n c. n * 10 + digit_val c) n ds, None)
                 else (maxVal, Some ErrRange))"
proof (induction ds arbitrary: n)
  case Nil
  then show ?case by simp
next
  case (Cons c ds)
  let ?n1 = "n * 10 + digit_val c"
  have d: "is_digit c" "list_all is_digit ds" using Cons.prems by simp_all
  have m: "?n1 \<le> foldl (\<lambda>n c. n * 10 + digit_val c) ?n1 ds" by (rule foldl_digits_mono)
  show ?case
  proof (cases "n \<ge> maxUint64 div 10 + 1")
    case True
    then have "maxUint64 < n * 10" by simp
    then have "maxVal < ?n1" using assms by simp
    then show ?thesis using True d m by simp
  next
    case False
    show ?thesis
    proof (cases "?n1 > maxVal")
      case True
      then show ?thesis using False d m by (simp add: Let_def)
    next
      case nb: False
      then have "?n1 \<le> maxVal" by simp
      from Cons.IH [OF d(2) this] show ?thesis using False nb d by (simp add: Let_def)
    qed
  qed
qed

lemma ParseUint_digits:
  assumes "ds \<noteq> []" "list_all is_digit ds" "bitSize \<le> 64"
  shows "ParseUint ds bitSize =
           (if decimal ds \<le> 2 ^ bitSize - 1 then (decimal ds, None)
            else (2 ^ bitSize - 1, Some (NumError ''ParseUint'' ds ErrRange)))"
proof -
  have "(2::nat) ^ bitSize \<le> 2 ^ 64" using assms(3) by (rule power_increasing) simp
  then have "(2::nat) ^ bitSize - 1 \<le> maxUint64" by (simp add: maxUint64_def)
  from uintLoop_digits [OF this assms(2), of 0] show ?thesis
    using assms(1) by (simp add: ParseUint_def decimal_def)
qed

lemma ParseInt_after_ParseUint:
  assumes "ParseUint (if c = CHR ''+'' \<or> c = CHR ''-'' then r else c # r) bitSize = (un, e)"
      and "e = None \<or> e = Some (NumError f num ErrRange)"
      and "K = 2 ^ (bitSize - 1)"
  shows "ParseInt (c # r) bitSize =
           (if c \<noteq> CHR ''-'' \<and> K \<le> un then (int K - 1, Some (NumError ''ParseInt'' (c # r) ErrRange))
            else if c = CHR ''-'' \<and> K < un then (- int K, Some (NumError ''ParseInt'' (c # r) ErrRange))
            else (if c = CHR ''-'' then - int un else int un, None))"
  using assms(1,2) unfolding ParseInt_def Let_def assms(3) [symmetric]
  by auto

lemma ParseInt_decimal:
  assumes "decimalInt s = Some v" "1 < bitSize" "bitSize \<le> 64" "K = 2 ^ (bitSize - 1)"
  shows "ParseInt s bitSize =
           (if int K - 1 < v then (int K - 1, Some (NumError ''ParseInt'' s ErrRange))
            else if v < - int K then (- int K, Some (NumError ''ParseInt'' s ErrRange))
            else (v, None))"
proof -
  obtain c r where s: "s = c # r" using assms(1) by (cases s) (auto simp: decimalInt_def)
  define ds where "ds = (if c = CHR ''+'' \<or> c = CHR ''-'' then r else c # r)"
  have dn: "decimalNat ds \<noteq> None"
   and sg: "v = (if c = CHR ''-'' then - int (decimal ds) else int (decimal ds))"
    using assms(1) unfolding s ds_def decimalInt_def
    by (auto simp: decimalNat_def split: if_splits)
  have ds: "ds \<noteq> []" "list_all is_digit ds"
    using dn by (auto simp: decimalNat_def split: if_splits)
  have half: "(2::nat) ^ bitSize = 2 * K"
    using assms(2) unfolding assms(4) by (cases bitSize) auto
  have "(2::nat) ^ 1 \<le> 2 ^ (bitSize - 1)" using assms(2) by (intro power_increasing) auto
  then have pos: "1 < K" unfolding assms(4) by simp
  define un e where "un = fst (ParseUint ds bitSize)" and "e = snd (ParseUint ds bitSize)"
  have pu: "ParseUint ds bitSize = (un, e)" by (simp add: un_def e_def)
  have une: "(decimal ds \<le> 2 * K - 1 \<and> un = decimal ds \<and> e = None)
           \<or> (2 * K - 1 < decimal ds \<and> un = 2 * K - 1 \<and> e = Some (NumError ''ParseUint'' ds ErrRange))"
    using ParseUint_digits [OF ds assms(3)] unfolding un_def e_def half by auto
  then have e: "e = None \<or> e = Some (NumError ''ParseUint'' ds ErrRange)" by auto
  note pi = ParseInt_after_ParseUint [OF pu [unfolded ds_def] e assms(4)]
  show ?thesis
    unfolding s pi using une sg pos by auto
qed

lemma uintLoop_not_digits:
  "\<not> list_all is_digit ds \<Longrightarrow>
   uintLoop maxVal ds n = None \<or> (\<exists>m. uintLoop maxVal ds n = Some (m, Some ErrRange))"
proof (induction ds arbitrary: n)
  case Nil
  then show ?case by simp
next
  case (Cons c ds)
  show ?case
  proof (cases "is_digit c")
    case False
    then show ?thesis by simp
  next
    case True
    then have "\<not> list_all is_digit ds" using Cons.prems by simp
    from Cons.IH [OF this, of "n * 10 + digit_val c"] show ?thesis
      using True by (auto simp: Let_def)
  qed
qed

lemma ParseUint_accepts:
  assumes "bitSize \<le> 64"
  shows "(snd (ParseUint s bitSize) = None) = (\<exists>n. decimalNat s = Some n \<and> n \<le> 2 ^ bitSize - 1)"
proof (cases "s \<noteq> [] \<and> list_all is_digit s")
  case True
  then show ?thesis
    using ParseUint_digits [of s bitSize] assms by (simp add: decimalNat_def)
next
  case False
  then have d: "decimalNat s = None" by (simp add: decimalNat_def)
  have "snd (ParseUint s bitSize) \<noteq> None"
  proof (cases "s = []")
    case True
    then show ?thesis by (simp add: ParseUint_def)
  next
    case ne: False
    then have "\<not> list_all is_digit s" using False by simp
    from uintLoop_not_digits [OF this, of "2 ^ bitSize - 1" 0] show ?thesis
      using ne by (auto simp: ParseUint_def)
  qed
  then show ?thesis using d by simp
qed

lemma ParseUint_result:
  "(\<exists>n. ParseUint s bitSize = (n, None))
   \<or> ParseUint s bitSize = (0, Some (NumError ''ParseUint'' s ErrSyntax))
   \<or> ParseUint s bitSize = (2 ^ bitSize - 1, Some (NumError ''ParseUint'' s ErrRange))"
proof -
  have "\<And>n. uintLoop (2 ^ bitSize - 1) s n = None
         \<or> (\<exists>m. uintLoop (2 ^ bitSize - 1) s n = Some (m, None))
         \<or> uintLoop (2 ^ bitSize - 1) s n = Some (2 ^ bitSize - 1, Some ErrRange)"
    by (induction s) (auto simp: Let_def)
  from this [of 0] show ?thesis
    by (auto simp: ParseUint_def)
qed

lemma ParseInt_after_syntax:
  assumes "ParseUint (if c = CHR ''+'' \<or> c = CHR ''-'' then r else c # r) bitSize
             = (un, Some (NumError f num ErrSyntax))"
  shows "ParseInt (c # r) bitSize = (0, Some (NumError ''ParseInt'' (c # r) ErrSyntax))"
  using assms unfolding ParseInt_def Let_def by auto

lemma ParseInt_accepts:
  assumes "1 < bitSize" "bitSize \<le> 64"
  shows "(snd (ParseInt s bitSize) = None)
         = (\<exists>v. decimalInt s = Some v \<and> - (2 ^ (bitSize - 1)) \<le> v \<and> v \<le> 2 ^ (bitSize - 1) - 1)"
proof (cases "decimalInt s")
  case (Some v)
  from ParseInt_decimal [OF Some assms, of "2 ^ (bitSize - 1)"] show ?thesis
    using Some by auto
next
  case None
  have "snd (ParseInt s bitSize) \<noteq> None"
  proof (cases s)
    case Nil
    then show ?thesis by (simp add: ParseInt_def)
  next
    case (Cons c r)
    define ds where "ds = (if c = CHR ''+'' \<or> c = CHR ''-'' then r else c # r)"
    have "decimalNat ds = None"
      using None unfolding Cons ds_def decimalInt_def by (auto split: if_splits)
    then have e: "snd (ParseUint ds bitSize) \<noteq> None"
      using ParseUint_accepts [OF assms(2), of ds] by simp
    have "(2::nat) ^ bitSize = 2 * 2 ^ (bitSize - 1)"
      using assms(1) by (cases bitSize) auto
    moreover have "(2::nat) ^ 1 \<le> 2 ^ (bitSize - 1)"
      using assms(1) by (intro power_increasing) auto
    ultimately have b: "(2::nat) ^ (bitSize - 1) < 2 ^ bitSize - 1" by simp
    from ParseUint_result [of ds bitSize] e
    consider "ParseUint ds bitSize = (0, Some (NumError ''ParseUint'' ds ErrSyntax))"
      | "ParseUint ds bitSize = (2 ^ bitSize - 1, Some (NumError ''ParseUint'' ds ErrRange))"
      by auto
    then show ?thesis
    proof cases
      case 1
      from ParseInt_after_syntax [OF 1 [unfolded ds_def]] show ?thesis
        unfolding Cons by simp
    next
      case 2
      from ParseInt_after_ParseUint [OF 2 [unfolded ds_def] _ refl] show ?thesis
        unfolding Cons using b by auto
    qed
  qed
  then show ?thesis using None by simp
qed

subsection \<open>The collection handler and the value setter\<close>

lemma convertParts_ok:
  assumes "\<forall>part\<in>set parts. snd (pf part) = None \<and> Convert w (fst (pf part)) e \<noteq> None"
  shows "convertParts w sf pf e False parts acc =
           Inr (acc @ map (\<lambda>part. the (Convert w (fst (pf part)) e)) parts)"
  using assms
proof (induction parts arbitrary: acc)
  case Nil
  then show ?case by simp
next
  case (Cons part parts)
  then obtain r v where "pf part = (r, None)" "Convert w r e = Some v"
    by (cases "pf part") auto
  then show ?case using Cons by simp
qed

lemma unmarshalParts_ok:
  assumes "implementsTU w recv"
      and "\<forall>part\<in>set parts. snd (UnmarshalText w recv (Zero w t) part) = None"
  shows "unmarshalParts w sf isPtr recv t parts =
           Inr (map (\<lambda>part. if isPtr then VPtr (Some (fst (UnmarshalText w recv (Zero w t) part)))
                             else fst (UnmarshalText w recv (Zero w t) part)) parts)"
  using assms(2)
proof (induction parts)
  case Nil
  then show ?case by simp
next
  case (Cons part parts)
  then obtain x where "UnmarshalText w recv (Zero w t) part = (x, None)"
    by (cases "UnmarshalText w recv (Zero w t) part") auto
  then show ?case using Cons assms(1) by simp
qed

lemma parseTextUnmarshalers_error:
  "snd (parseTextUnmarshalers w canSet field data sf) \<noteq> None \<Longrightarrow>
   fst (parseTextUnmarshalers w canSet field data sf) = field"
proof -
  define P where "P = (\<lambda>r :: val \<times> error option. snd r \<noteq> None \<longrightarrow> fst r = field)"
  have a: "\<And>e. P (field, Some e)" by (simp add: P_def)
  have b: "\<And>x. P (Value_Set canSet field x)" by (simp add: P_def Value_Set_def)
  have "P (parseTextUnmarshalers w canSet field data sf)"
    unfolding parseTextUnmarshalers_def by (simp add: a b split: option.split sum.split)
  then show "snd (parseTextUnmarshalers w canSet field data sf) \<noteq> None \<Longrightarrow>
   fst (parseTextUnmarshalers w canSet field data sf) = field"
    by (simp add: P_def)
qed

lemma handleSlice_error:
  "snd (handleSlice w canSet field value sf funcMap) \<noteq> None \<Longrightarrow>
   fst (handleSlice w canSet field value sf funcMap) = field"
proof -
  define P where "P = (\<lambda>r :: val \<times> error option. snd r \<noteq> None \<longrightarrow> fst r = field)"
  have a: "\<And>e. P (field, Some e)" by (simp add: P_def)
  have b: "\<And>x. P (Value_Set canSet field x)" by (simp add: P_def Value_Set_def)
  have c: "\<And>data. P (parseTextUnmarshalers w canSet field data sf)"
    using parseTextUnmarshalers_error by (simp add: P_def)
  have "P (handleSlice w canSet field value sf funcMap)"
    unfolding handleSlice_def Let_def by (simp add: a b c split: option.split sum.split)
  then show "snd (handleSlice w canSet field value sf funcMap) \<noteq> None \<Longrightarrow>
   fst (handleSlice w canSet field value sf funcMap) = field"
    by (simp add: P_def)
qed

lemma scalar_error:
  assumes "kind_of w (Type sf) \<noteq> Slice"
      and "funcMap (Type sf) \<noteq> None \<or> defaultBuiltInParsers w (kind_of w (Type sf)) \<noteq> None"
      and "snd (set_field w canSet field sf value funcMap) \<noteq> None"
  shows "fst (set_field w canSet field sf value funcMap) = field"
proof -
  define P where "P = (\<lambda>r :: val \<times> error option. snd r \<noteq> None \<longrightarrow> fst r = field)"
  have a: "\<And>e. P (field, Some e)" by (simp add: P_def)
  have b: "\<And>x. P (Value_Set canSet field x)" by (simp add: P_def Value_Set_def)
  have "P (set_field w canSet field sf value funcMap)"
    unfolding set_field_def using assms(1,2)
    by (auto simp: a b newParseError_def split: option.split prod.split iface.split)
  then show ?thesis using assms(3) by (simp add: P_def)
qed

lemma handleTextUnmarshaler_unsettable:
  "fst (handleTextUnmarshaler w False field value sf) = field"
  by (simp add: handleTextUnmarshaler_def Value_Set_def split: option.split)


section \<open>Required fields\<close>

text \<open>
  C1, as amended. A field whose option tokens are all empty or \<^verbatim>\<open>required\<close>, with
  \<^verbatim>\<open>required\<close> among them, whose base key is not in the environment, and which is not
  a non-nil settable pointer: the key resolver returns the missing-required error
  naming the key, whatever the \<^verbatim>\<open>envDefault\<close> tag says, and \<^verbatim>\<open>ParseWithFuncs\<close> on a
  struct that holds the field fails with that error when the fields before it are
  bound without error. The fields before it keep what was written to them.
\<close>

theorem required_field_missing:
  assumes "Fields w ty = Some (pre @ sf # post)"
      and "length pre = length vpre"
      and "doParseLoop w False pre vpre (defaultCustomParsers w ++ funcMap) = (vpre', None)"
      and "\<not> (kind_of w (Type sf) = Ptr \<and> \<not> IsNil v \<and> Exported sf)"
      and "''required'' \<in> set (envOpts sf)"
      and "\<forall>opt\<in>set (envOpts sf). opt = [] \<or> opt = ''required''"
      and "LookupEnv w (envKey sf) = None"
  shows "get w sf = ([], Some (ErrRequired (envKey sf)))
       \<and> ParseWithFuncs w (Iface (PtrTo ty) (VPtr (Some (VStruct (vpre @ v # vpost))))) funcMap =
           (Iface (PtrTo ty) (VPtr (Some (VStruct (vpre' @ v # vpost)))),
            Some (ErrRequired (envKey sf)))"
proof -
  have g: "get w sf = ([], Some (ErrRequired (envKey sf)))"
    unfolding get_loop using optStep_required_absent [OF assms(7) assms(6)] assms(5) by blast
  have "fieldStep w False sf v (defaultCustomParsers w ++ funcMap) = (v, Some (ErrRequired (envKey sf)))"
    using assms(4) g by (auto simp: fieldStep_def)
  then have "doParseLoop w False (pre @ sf # post) (vpre @ v # vpost) (defaultCustomParsers w ++ funcMap)
             = (vpre' @ v # vpost, Some (ErrRequired (envKey sf)))"
    by (simp add: doParseLoop_append [OF assms(2)] assms(3) doParseLoop_Cons)
  then show ?thesis
    using g by (simp add: ParseWithFuncs_struct [OF assms(1)])
qed

text \<open>The claim as it stands fails on a tag that has an unsupported option after
  \<^verbatim>\<open>required\<close>: the key is absent, and the error is the one of the unsupported option.
  It fails as well on a required field that is a non-nil pointer to a struct: the
  field is handed to \<^verbatim>\<open>Parse\<close>, its tag is never read, and \<^verbatim>\<open>Parse\<close> succeeds.\<close>

theorem required_field_missing_counterexample:
  "''required'' \<in> set (envOpts (modeField ''MODE,required,bogus''))
   \<and> LookupEnv (exampleWorld Map.empty) (envKey (modeField ''MODE,required,bogus'')) = None
   \<and> Parse (exampleWorld Map.empty)
        (Iface (PtrTo (StructOf [modeField ''MODE,required,bogus'']))
               (VPtr (Some (VStruct [VString []]))))
      = (Iface (PtrTo (StructOf [modeField ''MODE,required,bogus'']))
               (VPtr (Some (VStruct [VString []]))),
         Some (ErrOption ''bogus''))
   \<and> ''required'' \<in> set (envOpts poolField)
   \<and> LookupEnv (exampleWorld Map.empty) (envKey poolField) = None
   \<and> Parse (exampleWorld Map.empty)
        (Iface (PtrTo (StructOf [poolField]))
               (VPtr (Some (VStruct [VPtr (Some (VStruct [VString []]))]))))
      = (Iface (PtrTo (StructOf [poolField]))
               (VPtr (Some (VStruct [VPtr (Some (VStruct [VString []]))]))),
         None)"
  by code_simp

text \<open>An instance: \<^verbatim>\<open>Port\<close> is required and has the default \<^verbatim>\<open>8080\<close>, the environment is
  empty; \<^verbatim>\<open>Host\<close>, before it, has received its default.\<close>

theorem required_field_missing_witness:
  "ParseWithFuncs (exampleWorld Map.empty)
     (Iface (PtrTo (StructOf [hostField, portField]))
            (VPtr (Some (VStruct [VString [], VInt 0])))) Map.empty
   = (Iface (PtrTo (StructOf [hostField, portField]))
            (VPtr (Some (VStruct [VString ''localhost'', VInt 0]))),
      Some (ErrRequired ''PORT''))"
proof -
  let ?w = "exampleWorld Map.empty"
  have f: "Fields ?w (StructOf [hostField, portField]) = Some ([hostField] @ portField # [])"
    by (simp add: Fields_def)
  have l: "length [hostField] = length [VString []]" by simp
  have p: "doParseLoop ?w False [hostField] [VString []] (defaultCustomParsers ?w ++ Map.empty)
             = ([VString ''localhost''], None)"
    by code_simp
  have n: "\<not> (kind_of ?w (Type portField) = Ptr \<and> \<not> IsNil (VInt 0) \<and> Exported portField)"
    by (simp add: portField_def)
  have r: "''required'' \<in> set (envOpts portField)" by code_simp
  have a: "\<forall>opt\<in>set (envOpts portField). opt = [] \<or> opt = ''required''" by code_simp
  have e: "LookupEnv ?w (envKey portField) = None" by (simp add: exampleWorld_def)
  have k: "envKey portField = ''PORT''" by code_simp
  show ?thesis
    using required_field_missing [OF f l p n r a e, of "[]"] by (simp add: k)
qed

section \<open>Required and expansion\<close>

text \<open>
  C9. A field with the option \<^verbatim>\<open>required\<close> whose base key is in the environment: the
  resolved string is the value the environment holds, as it is, whatever the
  \<^verbatim>\<open>envExpand\<close> tag says and whatever \<^verbatim>\<open>os.ExpandEnv\<close> would make of it; and no error
  comes with it when every option token is empty or \<^verbatim>\<open>required\<close>.
\<close>

theorem required_discards_expansion:
  assumes "''required'' \<in> set (envOpts sf)"
      and "LookupEnv w (envKey sf) = Some value"
  shows "fst (get w sf) = value
       \<and> ((\<forall>opt\<in>set (envOpts sf). opt = [] \<or> opt = ''required'') \<longrightarrow> get w sf = (value, None))"
proof -
  have a: "fst (get w sf) = value"
    unfolding get_loop using optStep_required_present [OF assms(2)] assms(1) by blast
  have "snd (get w sf) = None" if "\<forall>opt\<in>set (envOpts sf). opt = [] \<or> opt = ''required''"
    unfolding get_loop using optStep_no_error [OF assms(2) that] by simp
  with a show ?thesis by (metis prod.collapse)
qed

text \<open>An instance: expansion is on, the environment holds a value that expansion would
  change, and the resolved string is that value unchanged.\<close>

theorem required_discards_expansion_witness:
  "ToLower (Tag_Get (Tag dirField) ''envExpand'') = ''true''
   \<and> ExpandEnv (exampleWorld [''DIR'' \<mapsto> ''${HOME}/data'']) ''${HOME}/data'' = ''/root/data''
   \<and> get (exampleWorld [''DIR'' \<mapsto> ''${HOME}/data'']) dirField = (''${HOME}/data'', None)"
proof -
  let ?w = "exampleWorld [''DIR'' \<mapsto> ''${HOME}/data'']"
  have t: "ToLower (Tag_Get (Tag dirField) ''envExpand'') = ''true''" by code_simp
  have x: "ExpandEnv ?w ''${HOME}/data'' = ''/root/data''" by (simp add: exampleWorld_def)
  have k: "envKey dirField = ''DIR''" by code_simp
  have r: "''required'' \<in> set (envOpts dirField)" by code_simp
  have a: "\<forall>opt\<in>set (envOpts dirField). opt = [] \<or> opt = ''required''" by code_simp
  have e: "LookupEnv ?w (envKey dirField) = Some ''${HOME}/data''" by (simp add: k exampleWorld_def)
  show ?thesis
    using required_discards_expansion [OF r e] a t x by simp
qed

section \<open>Pointer fields\<close>




section \<open>Fields with an empty resolved string\<close>

text \<open>
  C3. A field the walk reaches (the fields before it bound without error) whose
  resolved string is empty: when its kind is struct, \<^verbatim>\<open>doParse\<close> runs on its value with
  the registry of the enclosing walk, and the walk goes on or stops with what that
  returns; otherwise the field keeps its value \<open>v\<close> and the walk goes on. No conversion
  function has a part in the result for this field.
\<close>

theorem empty_resolved_string:
  assumes "get w sf = ([], None)"
      and "\<not> (kind_of w (Type sf) = Ptr \<and> \<not> IsNil v \<and> \<not> sticky \<and> Exported sf)"
      and "length pre = length vpre"
      and "doParseLoop w sticky pre vpre funcMap = (vpre', None)"
  shows "doParseLoop w sticky (pre @ sf # post) (vpre @ v # vpost) funcMap =
     (if kind_of w (Type sf) = Struct then
        (case doParse w (sticky \<or> (\<not> Exported sf \<and> \<not> Anonymous sf)) (Type sf) v funcMap of
           (v', Some err) \<Rightarrow> (vpre' @ v' # vpost, Some err)
         | (v', None) \<Rightarrow>
             (case doParseLoop w sticky post vpost funcMap of (vs', e) \<Rightarrow> (vpre' @ v' # vs', e)))
      else
        (case doParseLoop w sticky post vpost funcMap of (vs', e) \<Rightarrow> (vpre' @ v # vs', e)))"
proof -
  have "fieldStep w sticky sf v funcMap =
          (if kind_of w (Type sf) = Struct
           then doParse w (sticky \<or> (\<not> Exported sf \<and> \<not> Anonymous sf)) (Type sf) v funcMap
           else (v, None))"
    using assms(1,2) by (auto simp: fieldStep_def)
  then show ?thesis
    by (simp add: doParseLoop_append [OF assms(3)] assms(4) doParseLoop_Cons split: prod.splits option.splits)
qed

text \<open>An instance: \<^verbatim>\<open>DB\<close> has no key of its own and is walked, its field \<^verbatim>\<open>Name\<close> bound
  from the environment; the nil pointer \<^verbatim>\<open>Count\<close> after it is left as it is.\<close>

theorem empty_resolved_string_witness:
  "doParseLoop (exampleWorld [''DB_NAME'' \<mapsto> ''main'']) False
     [hostField, dbField, countField] [VString [], VStruct [VString []], VPtr None] Map.empty
   = ([VString ''localhost'', VStruct [VString ''main''], VPtr None], None)"
proof -
  let ?w = "exampleWorld [''DB_NAME'' \<mapsto> ''main'']"
  have g: "get ?w dbField = ([], None)" by code_simp
  have n: "\<not> (kind_of ?w (Type dbField) = Ptr \<and> \<not> IsNil (VStruct [VString []]) \<and> \<not> False \<and> Exported dbField)"
    by (simp add: dbField_def kind_of_def)
  have l: "length [hostField] = length [VString []]" by simp
  have p: "doParseLoop ?w False [hostField] [VString []] Map.empty = ([VString ''localhost''], None)"
    by code_simp
  have k: "kind_of ?w (Type dbField) = Struct" by (simp add: dbField_def kind_of_def)
  have d: "doParse ?w (False \<or> (\<not> Exported dbField \<and> \<not> Anonymous dbField)) (Type dbField)
             (VStruct [VString []]) Map.empty = (VStruct [VString ''main''], None)"
    by code_simp
  have r: "doParseLoop ?w False [countField] [VPtr None] Map.empty = ([VPtr None], None)"
    by code_simp
  show ?thesis
    using empty_resolved_string [OF g n l p, of "[countField]" "[VPtr None]"] k d r by simp
qed


section \<open>The precedence of the converters\<close>

text \<open>
  C2. For a field that is not a slice, \<^verbatim>\<open>set\<close> takes the converter in this order. An entry
  of the registry for the exact type of the field decides, and what is stored is what
  that function returns, whatever the table has for the kind. With no such entry, the
  entry of the table \<^verbatim>\<open>defaultBuiltInParsers\<close> for the kind of the field decides: its
  result, of the predeclared type of that kind, is stored. With neither, and only
  then, \<^verbatim>\<open>set\<close> is \<^verbatim>\<open>handleTextUnmarshaler\<close>.
\<close>

theorem converter_precedence:
  assumes "kind_of w (Type sf) \<noteq> Slice"
  shows "(funcMap (Type sf) = Some f \<longrightarrow>
            set_field w canSet field sf value funcMap =
              (case f value of
                 (val, Some err) \<Rightarrow> (field, Some (parseError sf err))
               | (NilIface, None) \<Rightarrow>
                   (field, Some (Panic ''Value.Set''))
               | (Iface ty x, None) \<Rightarrow>
                   if AssignableTo w ty (Type sf) then Value_Set canSet field x
                   else (field, Some (Panic ''Value.Set''))))
       \<and> (funcMap (Type sf) = None \<longrightarrow>
            defaultBuiltInParsers w (kind_of w (Type sf)) = Some g \<longrightarrow>
            (\<exists>x. fst (g value) = Iface (Basic (kind_of w (Type sf))) x \<and>
                 set_field w canSet field sf value funcMap =
                   (case snd (g value) of
                      Some err \<Rightarrow> (field, Some (parseError sf err))
                    | None \<Rightarrow> Value_Set canSet field x)))
       \<and> (funcMap (Type sf) = None \<longrightarrow>
            defaultBuiltInParsers w (kind_of w (Type sf)) = None \<longrightarrow>
            set_field w canSet field sf value funcMap =
              handleTextUnmarshaler w canSet field value sf)"
proof (intro conjI impI)
  assume "funcMap (Type sf) = Some f"
  then show "set_field w canSet field sf value funcMap =
              (case f value of
                 (val, Some err) \<Rightarrow> (field, Some (parseError sf err))
               | (NilIface, None) \<Rightarrow>
                   (field, Some (Panic ''Value.Set''))
               | (Iface ty x, None) \<Rightarrow>
                   if AssignableTo w ty (Type sf) then Value_Set canSet field x
                   else (field, Some (Panic ''Value.Set'')))"
    using assms by (simp add: set_field_def newParseError_def split: prod.splits option.splits iface.splits)
next
  assume a: "funcMap (Type sf) = None" "defaultBuiltInParsers w (kind_of w (Type sf)) = Some g"
  from builtin_Convert [OF a(2), of "value"] obtain x where
    x: "fst (g value) = Iface (Basic (kind_of w (Type sf))) x" "Convert w (fst (g value)) (Type sf) = Some x"
    by blast
  have "set_field w canSet field sf value funcMap =
          (case snd (g value) of
             Some err \<Rightarrow> (field, Some (parseError sf err))
           | None \<Rightarrow> Value_Set canSet field x)"
    using assms a x by (cases "g value") (simp add: set_field_def newParseError_def split: option.splits)
  with x(1) show "\<exists>x. fst (g value) = Iface (Basic (kind_of w (Type sf))) x \<and>
                 set_field w canSet field sf value funcMap =
                   (case snd (g value) of
                      Some err \<Rightarrow> (field, Some (parseError sf err))
                    | None \<Rightarrow> Value_Set canSet field x)"
    by blast
next
  assume "funcMap (Type sf) = None" "defaultBuiltInParsers w (kind_of w (Type sf)) = None"
  then show "set_field w canSet field sf value funcMap = handleTextUnmarshaler w canSet field value sf"
    using assms by (simp add: set_field_def)
qed

text \<open>An instance: with a function registered for \<^verbatim>\<open>int\<close> that returns 42, the field
  \<^verbatim>\<open>Port\<close> receives 42 from the string \<^verbatim>\<open>7\<close>; with the baseline registry alone it
  receives 7 from the table.\<close>

theorem converter_precedence_witness:
  "set_field (exampleWorld [''PORT'' \<mapsto> ''7'']) True (VInt 0) portField ''7''
     (defaultCustomParsers (exampleWorld [''PORT'' \<mapsto> ''7'']) ++ [Basic IntK \<mapsto> answerParser])
     = (VInt 42, None)
   \<and> set_field (exampleWorld [''PORT'' \<mapsto> ''7'']) True (VInt 0) portField ''7''
     (defaultCustomParsers (exampleWorld [''PORT'' \<mapsto> ''7''])) = (VInt 7, None)"
proof -
  let ?w = "exampleWorld [''PORT'' \<mapsto> ''7'']"
  let ?fm = "defaultCustomParsers ?w ++ [Basic IntK \<mapsto> answerParser]"
  have k: "kind_of ?w (Type portField) \<noteq> Slice" by (simp add: portField_def)
  have c: "?fm (Type portField) = Some answerParser" by (simp add: portField_def)
  have n: "defaultCustomParsers ?w (Type portField) = None"
    by (simp add: portField_def defaultCustomParsers_def URLType_def DurationType_def)
  have b: "defaultBuiltInParsers ?w (kind_of ?w (Type portField)) = Some (intParser IntK 32)"
    by (simp add: portField_def defaultBuiltInParsers_def)
  have p: "intParser IntK 32 ''7'' = (Iface (Basic IntK) (VInt 7), None)"
    by (simp add: intParser_def ParseInt_def ParseUint_def is_digit_def digit_val_def maxUint64_def)
  have 1: "set_field ?w True (VInt 0) portField ''7'' ?fm = (VInt 42, None)"
    using converter_precedence [OF k, of ?fm answerParser True "VInt 0" "''7''"] c
    by (simp add: answerParser_def AssignableTo_def Value_Set_def portField_def)
  have 2: "set_field ?w True (VInt 0) portField ''7'' (defaultCustomParsers ?w) = (VInt 7, None)"
    using converter_precedence [OF k, of "defaultCustomParsers ?w" _ True "VInt 0" "''7''" "intParser IntK 32"] n b p
    by (auto simp: Value_Set_def)
  from 1 2 show ?thesis by simp
qed

section \<open>Sequence fields\<close>

text \<open>
  C4, as amended. For a settable slice field, the resolved string is cut at the
  separator of the \<^verbatim>\<open>envSeparator\<close> tag, at the comma when the tag is empty, and the
  field becomes the slice of the converted parts, one element per part, in the order
  of the parts: each part unmarshalled into a fresh element when the element type (a
  pointer taken off) unmarshals text; each part converted by the function for the
  element type (registry first, then the table) when it does not and the elements are
  not pointers; in both cases when every part converts.
\<close>

theorem slice_conversion:
  assumes "kind_of w (Type sf) = Slice"
      and "Elem w (Type sf) = Some elemType0"
      and "(if kind_of w elemType0 = Ptr then Elem w elemType0 else Some elemType0) = Some elemType"
      and "parts = Split value (if Tag_Get (Tag sf) ''envSeparator'' = [] then '',''
                                else Tag_Get (Tag sf) ''envSeparator'')"
  shows "(implementsTU w (PtrTo elemType) \<longrightarrow>
            (\<forall>part\<in>set parts. snd (UnmarshalText w (PtrTo elemType) (Zero w elemType) part) = None) \<longrightarrow>
            set_field w True field sf value funcMap =
              (VSlice (map (\<lambda>part.
                         if kind_of w elemType0 = Ptr
                         then VPtr (Some (fst (UnmarshalText w (PtrTo elemType) (Zero w elemType) part)))
                         else fst (UnmarshalText w (PtrTo elemType) (Zero w elemType) part)) parts),
               None))
       \<and> (\<not> implementsTU w (PtrTo elemType) \<longrightarrow> kind_of w elemType0 \<noteq> Ptr \<longrightarrow>
            (case funcMap elemType of Some f \<Rightarrow> Some f
             | None \<Rightarrow> defaultBuiltInParsers w (kind_of w elemType)) = Some parserFunc \<longrightarrow>
            (\<forall>part\<in>set parts. snd (parserFunc part) = None
                               \<and> Convert w (fst (parserFunc part)) elemType \<noteq> None) \<longrightarrow>
            set_field w True field sf value funcMap =
              (VSlice (map (\<lambda>part. the (Convert w (fst (parserFunc part)) elemType)) parts), None))"
proof (intro conjI impI)
  assume tu: "implementsTU w (PtrTo elemType)"
     and ok: "\<forall>part\<in>set parts. snd (UnmarshalText w (PtrTo elemType) (Zero w elemType) part) = None"
  show "set_field w True field sf value funcMap =
              (VSlice (map (\<lambda>part.
                         if kind_of w elemType0 = Ptr
                         then VPtr (Some (fst (UnmarshalText w (PtrTo elemType) (Zero w elemType) part)))
                         else fst (UnmarshalText w (PtrTo elemType) (Zero w elemType) part)) parts),
               None)"
  proof (cases "kind_of w elemType0 = Ptr")
    case True
    then have e: "Elem w elemType0 = Some elemType" using assms(3) by simp
    show ?thesis
      using assms(1,2) e True tu unmarshalParts_ok [OF tu ok, of sf True]
      by (simp add: set_field_def handleSlice_def parseTextUnmarshalers_def Value_Set_def
            assms(4) [symmetric])
  next
    case False
    then have e: "elemType0 = elemType" using assms(3) by simp
    show ?thesis
      using assms(1,2) e False tu unmarshalParts_ok [OF tu ok, of sf False]
      by (simp add: set_field_def handleSlice_def parseTextUnmarshalers_def Value_Set_def
            assms(4) [symmetric])
  qed
next
  assume tu: "\<not> implementsTU w (PtrTo elemType)" and np: "kind_of w elemType0 \<noteq> Ptr"
     and pf: "(case funcMap elemType of Some f \<Rightarrow> Some f
             | None \<Rightarrow> defaultBuiltInParsers w (kind_of w elemType)) = Some parserFunc"
     and ok: "\<forall>part\<in>set parts. snd (parserFunc part) = None
                               \<and> Convert w (fst (parserFunc part)) elemType \<noteq> None"
  from np have e: "elemType0 = elemType" using assms(3) by simp
  show "set_field w True field sf value funcMap =
              (VSlice (map (\<lambda>part. the (Convert w (fst (parserFunc part)) elemType)) parts), None)"
    using assms(1,2) e np tu pf convertParts_ok [OF ok, of sf "[]"]
    by (simp add: set_field_def handleSlice_def Value_Set_def assms(4) [symmetric])
qed

text \<open>The claim as it stands fails on three slice fields with a non-empty string: one
  whose elements are pointers to \<^verbatim>\<open>int\<close>, which is refused though every part
  converts; one with a part that does not convert; and one that is not settable, on
  which \<^verbatim>\<open>Value.Set\<close> panics. The field keeps its contents in all three.\<close>

theorem slice_conversion_counterexample:
  "set_field (exampleWorld Map.empty) True (VSlice []) (idsField (PtrTo (Basic IntK))) ''1,2,3'' Map.empty
     = (VSlice [], Some (ErrPtrSlice ''IDs'' (SliceOf (PtrTo (Basic IntK)))))
   \<and> set_field (exampleWorld Map.empty) True (VSlice []) (idsField (Basic Int32)) ''1,x,3'' Map.empty
     = (VSlice [], Some (parseError (idsField (Basic Int32)) (NumError ''ParseInt'' ''x'' ErrSyntax)))
   \<and> set_field (exampleWorld Map.empty) False (VSlice []) (idsField (Basic Int32)) ''1,2,3'' Map.empty
     = (VSlice [], Some (Panic ''Value.Set''))"
proof -
  let ?w = "exampleWorld Map.empty"
  have sp: "Split ''1,2,3'' '','' = [''1'', ''2'', ''3'']" "Split ''1,x,3'' '','' = [''1'', ''x'', ''3'']"
    by code_simp+
  have p: "intParser IntK 32 ''1'' = (Iface (Basic IntK) (VInt 1), None)"
          "intParser Int32 32 ''1'' = (Iface (Basic Int32) (VInt 1), None)"
          "intParser Int32 32 ''2'' = (Iface (Basic Int32) (VInt 2), None)"
          "intParser Int32 32 ''3'' = (Iface (Basic Int32) (VInt 3), None)"
    by (simp_all add: intParser_def ParseInt_def ParseUint_def is_digit_def digit_val_def maxUint64_def)
  have px: "intParser Int32 32 ''x'' = (Iface (Basic Int32) (VInt 0), Some (NumError ''ParseInt'' ''x'' ErrSyntax))"
    by (simp add: intParser_def ParseInt_def ParseUint_def is_digit_def)
  have tu: "\<not> implementsTU ?w (PtrTo (Basic IntK))" "\<not> implementsTU ?w (PtrTo (Basic Int32))"
    by (simp_all add: exampleWorld_def)
  have 1: "set_field ?w True (VSlice []) (idsField (PtrTo (Basic IntK))) ''1,2,3'' Map.empty
     = (VSlice [], Some (ErrPtrSlice ''IDs'' (SliceOf (PtrTo (Basic IntK)))))"
    using tu
    by (simp add: set_field_def handleSlice_def idsField_def Tag_Get_def sp p Elem_def kind_of_def
          defaultBuiltInParsers_def Convert_def scalar_kind_def)
  have 2: "set_field ?w True (VSlice []) (idsField (Basic Int32)) ''1,x,3'' Map.empty
     = (VSlice [], Some (parseError (idsField (Basic Int32)) (NumError ''ParseInt'' ''x'' ErrSyntax)))"
    using tu
    by (simp add: set_field_def handleSlice_def idsField_def Tag_Get_def sp p px Elem_def kind_of_def
          defaultBuiltInParsers_def Convert_def scalar_kind_def)
  have 3: "set_field ?w False (VSlice []) (idsField (Basic Int32)) ''1,2,3'' Map.empty
     = (VSlice [], Some (Panic ''Value.Set''))"
    using tu
    by (simp add: set_field_def handleSlice_def idsField_def Tag_Get_def sp p Elem_def kind_of_def
          defaultBuiltInParsers_def Convert_def scalar_kind_def Value_Set_def)
  from 1 2 3 show ?thesis by simp
qed

text \<open>Two instances: \<^verbatim>\<open>1,2,3\<close> into a slice of 32-bit integers with no separator
  declared, and \<^verbatim>\<open>info;warn\<close> into a slice of \<^verbatim>\<open>Level\<close> with the separator \<^verbatim>\<open>;\<close>.\<close>

theorem slice_conversion_witness:
  "set_field (exampleWorld Map.empty) True (VSlice []) (idsField (Basic Int32)) ''1,2,3'' Map.empty
     = (VSlice [VInt 1, VInt 2, VInt 3], None)
   \<and> set_field (exampleWorld Map.empty) True (VSlice []) levelsField ''info;warn'' Map.empty
     = (VSlice [VString ''info'', VString ''warn''], None)"
proof -
  let ?w = "exampleWorld Map.empty"
  have sp: "Split ''1,2,3'' (if Tag_Get (Tag (idsField (Basic Int32))) ''envSeparator'' = [] then '',''
                             else Tag_Get (Tag (idsField (Basic Int32))) ''envSeparator'') = [''1'', ''2'', ''3'']"
    by code_simp
  have k: "kind_of ?w (Type (idsField (Basic Int32))) = Slice" by (simp add: idsField_def kind_of_def)
  have e: "Elem ?w (Type (idsField (Basic Int32))) = Some (Basic Int32)" by (simp add: idsField_def Elem_def)
  have e': "(if kind_of ?w (Basic Int32) = Ptr then Elem ?w (Basic Int32) else Some (Basic Int32)) = Some (Basic Int32)"
    by simp
  have tu: "\<not> implementsTU ?w (PtrTo (Basic Int32))" by (simp add: exampleWorld_def)
  have pf: "(case Map.empty (Basic Int32) of Some f \<Rightarrow> Some f
             | None \<Rightarrow> defaultBuiltInParsers ?w (kind_of ?w (Basic Int32))) = Some (intParser Int32 32)"
    by (simp add: defaultBuiltInParsers_def)
  have p: "intParser Int32 32 ''1'' = (Iface (Basic Int32) (VInt 1), None)"
          "intParser Int32 32 ''2'' = (Iface (Basic Int32) (VInt 2), None)"
          "intParser Int32 32 ''3'' = (Iface (Basic Int32) (VInt 3), None)"
    by (simp_all add: intParser_def ParseInt_def ParseUint_def is_digit_def digit_val_def maxUint64_def)
  have cv: "\<And>x. Convert ?w (Iface (Basic Int32) x) (Basic Int32) = Some x"
    by (simp add: Convert_def scalar_kind_def)
  have 1: "set_field ?w True (VSlice []) (idsField (Basic Int32)) ''1,2,3'' Map.empty
             = (VSlice [VInt 1, VInt 2, VInt 3], None)"
    using slice_conversion [OF k e e' sp [symmetric], of "VSlice []" Map.empty "intParser Int32 32"] tu pf
    by (simp add: p cv)
  have sp2: "Split ''info;warn'' (if Tag_Get (Tag levelsField) ''envSeparator'' = [] then '',''
                             else Tag_Get (Tag levelsField) ''envSeparator'') = [''info'', ''warn'']"
    by code_simp
  have k2: "kind_of ?w (Type levelsField) = Slice" by (simp add: levelsField_def kind_of_def)
  have e2: "Elem ?w (Type levelsField) = Some (Named ''Level'')" by (simp add: levelsField_def Elem_def)
  have kl: "kind_of ?w (Named ''Level'') = String" by (simp add: kind_of_def exampleWorld_def)
  have e2': "(if kind_of ?w (Named ''Level'') = Ptr then Elem ?w (Named ''Level'') else Some (Named ''Level''))
               = Some (Named ''Level'')"
    by (simp add: kl)
  have tu2: "implementsTU ?w (PtrTo (Named ''Level''))" by (simp add: exampleWorld_def)
  have u: "UnmarshalText ?w (PtrTo (Named ''Level'')) (Zero ?w (Named ''Level'')) ''info'' = (VString ''info'', None)"
          "UnmarshalText ?w (PtrTo (Named ''Level'')) (Zero ?w (Named ''Level'')) ''warn'' = (VString ''warn'', None)"
    by (simp_all add: exampleWorld_def)
  have 2: "set_field ?w True (VSlice []) levelsField ''info;warn'' Map.empty
     = (VSlice [VString ''info'', VString ''warn''], None)"
    using slice_conversion [OF k2 e2 e2' sp2 [symmetric], of "VSlice []" Map.empty] tu2
    by (simp add: u kl)
  from 1 2 show ?thesis by simp
qed




section \<open>Writes and failed conversions\<close>

text \<open>
  C7, as amended. When \<^verbatim>\<open>set\<close> returns an error for a slice field, for a field with an
  entry in the registry or in the table, or for a field that is not settable, the
  field holds the value it had. On the remaining path, \<^verbatim>\<open>handleTextUnmarshaler\<close>,
  \<^verbatim>\<open>UnmarshalText\<close> runs on the field's own storage: a nil pointer field is first set to a
  fresh zero value, which stays when the type has no unmarshaler and is what
  \<^verbatim>\<open>UnmarshalText\<close> works on otherwise, error or not; a field that is not a pointer
  holds what \<^verbatim>\<open>UnmarshalText\<close> left in it.
\<close>

theorem write_after_conversion:
  "(snd (set_field w canSet field sf value funcMap) \<noteq> None \<longrightarrow>
      (kind_of w (Type sf) = Slice \<or> funcMap (Type sf) \<noteq> None
         \<or> defaultBuiltInParsers w (kind_of w (Type sf)) \<noteq> None \<or> \<not> canSet) \<longrightarrow>
      fst (set_field w canSet field sf value funcMap) = field)
 \<and> (kind_of w (Type sf) = Ptr \<longrightarrow> funcMap (Type sf) = None \<longrightarrow> canSet \<longrightarrow>
      Elem w (Type sf) = Some t \<longrightarrow>
      set_field w canSet (VPtr None) sf value funcMap =
        (if implementsTU w (Type sf)
         then (VPtr (Some (fst (UnmarshalText w (Type sf) (Zero w t) value))),
               newParseError sf (snd (UnmarshalText w (Type sf) (Zero w t) value)))
         else (VPtr (Some (Zero w t)), Some (newNoParserError sf))))
 \<and> (kind_of w (Type sf) \<notin> {Ptr, Slice} \<longrightarrow> funcMap (Type sf) = None \<longrightarrow>
      defaultBuiltInParsers w (kind_of w (Type sf)) = None \<longrightarrow> canSet \<longrightarrow>
      set_field w canSet field sf value funcMap =
        (if implementsTU w (PtrTo (Type sf))
         then (fst (UnmarshalText w (PtrTo (Type sf)) field value),
               newParseError sf (snd (UnmarshalText w (PtrTo (Type sf)) field value)))
         else (field, Some (newNoParserError sf))))"
proof (intro conjI impI)
  assume e: "snd (set_field w canSet field sf value funcMap) \<noteq> None"
     and p: "kind_of w (Type sf) = Slice \<or> funcMap (Type sf) \<noteq> None
         \<or> defaultBuiltInParsers w (kind_of w (Type sf)) \<noteq> None \<or> \<not> canSet"
  show "fst (set_field w canSet field sf value funcMap) = field"
  proof (cases "kind_of w (Type sf) = Slice")
    case True
    then show ?thesis using e handleSlice_error by (simp add: set_field_def)
  next
    case ns: False
    show ?thesis
    proof (cases "funcMap (Type sf) \<noteq> None \<or> defaultBuiltInParsers w (kind_of w (Type sf)) \<noteq> None")
      case True
      then show ?thesis using scalar_error [OF ns True e] by simp
    next
      case False
      then have "\<not> canSet" using p ns by simp
      then show ?thesis
        using ns False handleTextUnmarshaler_unsettable by (simp add: set_field_def)
    qed
  qed
next
  assume "kind_of w (Type sf) = Ptr" "funcMap (Type sf) = None" canSet "Elem w (Type sf) = Some t"
  then show "set_field w canSet (VPtr None) sf value funcMap =
        (if implementsTU w (Type sf)
         then (VPtr (Some (fst (UnmarshalText w (Type sf) (Zero w t) value))),
               newParseError sf (snd (UnmarshalText w (Type sf) (Zero w t) value)))
         else (VPtr (Some (Zero w t)), Some (newNoParserError sf)))"
    by (simp add: set_field_def defaultBuiltInParsers_def handleTextUnmarshaler_def IsNil_def
          Value_Set_def split: prod.splits)
next
  assume "kind_of w (Type sf) \<notin> {Ptr, Slice}" "funcMap (Type sf) = None"
         "defaultBuiltInParsers w (kind_of w (Type sf)) = None" canSet
  then show "set_field w canSet field sf value funcMap =
        (if implementsTU w (PtrTo (Type sf))
         then (fst (UnmarshalText w (PtrTo (Type sf)) field value),
               newParseError sf (snd (UnmarshalText w (PtrTo (Type sf)) field value)))
         else (field, Some (newNoParserError sf)))"
    by (simp add: set_field_def handleTextUnmarshaler_def split: prod.splits)
qed

text \<open>The claim as it stands fails on a nil pointer field whose type unmarshals text:
  \<^verbatim>\<open>UnmarshalText\<close> returns an error, \<^verbatim>\<open>Parse\<close> returns the parse error, and the field
  is no longer nil.\<close>

theorem write_after_conversion_counterexample:
  "kind_of (exampleWorld [''LEVEL'' \<mapsto> ''bad'']) (Type levelField) \<noteq> Slice
   \<and> implementsTU (exampleWorld [''LEVEL'' \<mapsto> ''bad'']) (Type levelField)
   \<and> UnmarshalText (exampleWorld [''LEVEL'' \<mapsto> ''bad'']) (Type levelField) (VString []) ''bad''
       = (VString [], Some (TextError ''unknown text''))
   \<and> Parse (exampleWorld [''LEVEL'' \<mapsto> ''bad''])
        (Iface (PtrTo (StructOf [levelField])) (VPtr (Some (VStruct [VPtr None]))))
      = (Iface (PtrTo (StructOf [levelField])) (VPtr (Some (VStruct [VPtr (Some (VString []))]))),
         Some (parseError levelField (TextError ''unknown text'')))"
  by code_simp

text \<open>Instances: a failed conversion by the table leaves \<^verbatim>\<open>Port\<close> at 5; a failed
  \<^verbatim>\<open>UnmarshalText\<close> leaves the nil pointer \<^verbatim>\<open>Level\<close> pointing to a zero value; the
  struct \<^verbatim>\<open>Stamp\<close> holds what its \<^verbatim>\<open>UnmarshalText\<close> left, here the old value on the
  error and the new one on success.\<close>

theorem write_after_conversion_witness:
  "set_field (exampleWorld Map.empty) True (VInt 5) portField ''x'' Map.empty
     = (VInt 5, Some (parseError portField (NumError ''ParseInt'' ''x'' ErrSyntax)))
   \<and> set_field (exampleWorld Map.empty) True (VPtr None) levelField ''bad'' Map.empty
     = (VPtr (Some (VString [])), Some (parseError levelField (TextError ''unknown text'')))
   \<and> set_field (exampleWorld Map.empty) True (VStruct [VString ''noon'']) stampField ''bad'' Map.empty
     = (VStruct [VString ''noon''], Some (parseError stampField (TextError ''unknown text'')))
   \<and> set_field (exampleWorld Map.empty) True (VStruct [VString ''noon'']) stampField ''dusk'' Map.empty
     = (VStruct [VString ''dusk''], None)"
proof -
  let ?w = "exampleWorld Map.empty"
  have p: "intParser IntK 32 ''x'' = (Iface (Basic IntK) (VInt 0), Some (NumError ''ParseInt'' ''x'' ErrSyntax))"
    by (simp add: intParser_def ParseInt_def ParseUint_def is_digit_def)
  have ty: "Type portField = Basic IntK" by (simp add: portField_def)
  have r: "set_field ?w True (VInt 5) portField ''x'' Map.empty
             = (VInt 5, Some (parseError portField (NumError ''ParseInt'' ''x'' ErrSyntax)))"
    by (simp add: set_field_def ty defaultBuiltInParsers_def p newParseError_def)
  have b: "defaultBuiltInParsers ?w (kind_of ?w (Type portField)) \<noteq> None"
    by (simp add: ty defaultBuiltInParsers_def)
  have 1: "fst (set_field ?w True (VInt 5) portField ''x'' Map.empty) = VInt 5"
    using write_after_conversion [of ?w True "VInt 5" portField "''x''" Map.empty] r b by simp
  have k: "kind_of ?w (Type levelField) = Ptr" by (simp add: levelField_def kind_of_def)
  have e: "Elem ?w (Type levelField) = Some (Named ''Level'')" by (simp add: levelField_def Elem_def)
  have tu: "implementsTU ?w (Type levelField)" by (simp add: levelField_def exampleWorld_def)
  have u: "UnmarshalText ?w (Type levelField) (Zero ?w (Named ''Level'')) ''bad''
             = (VString [], Some (TextError ''unknown text''))"
    by (simp add: exampleWorld_def)
  have 2: "set_field ?w True (VPtr None) levelField ''bad'' Map.empty
     = (VPtr (Some (VString [])), Some (parseError levelField (TextError ''unknown text'')))"
    using write_after_conversion [of ?w True _ levelField "''bad''" Map.empty "Named ''Level''"] k e tu
    by (simp add: u newParseError_def)
  have ks: "kind_of ?w (Type stampField) = Struct" by (simp add: stampField_def kind_of_def exampleWorld_def)
  have tus: "implementsTU ?w (PtrTo (Type stampField))" by (simp add: stampField_def exampleWorld_def)
  have nb: "defaultBuiltInParsers ?w Struct = None" by (simp add: defaultBuiltInParsers_def)
  have us: "UnmarshalText ?w (PtrTo (Type stampField)) (VStruct [VString ''noon'']) ''bad''
              = (VStruct [VString ''noon''], Some (TextError ''unknown text''))"
           "UnmarshalText ?w (PtrTo (Type stampField)) (VStruct [VString ''noon'']) ''dusk''
              = (VStruct [VString ''dusk''], None)"
    by (simp_all add: stampField_def exampleWorld_def)
  have 3: "set_field ?w True (VStruct [VString ''noon'']) stampField ''bad'' Map.empty
     = (VStruct [VString ''noon''], Some (parseError stampField (TextError ''unknown text'')))"
    using write_after_conversion [of ?w True "VStruct [VString ''noon'']" stampField "''bad''" Map.empty] ks tus nb
    by (simp add: us newParseError_def)
  have 4: "set_field ?w True (VStruct [VString ''noon'']) stampField ''dusk'' Map.empty
     = (VStruct [VString ''dusk''], None)"
    using write_after_conversion [of ?w True "VStruct [VString ''noon'']" stampField "''dusk''" Map.empty] ks tus nb
    by (simp add: us newParseError_def)
  from r 1 2 3 4 show ?thesis by simp
qed

section \<open>The bit size of int and uint\<close>

text \<open>
  C10. The entry of the table for the kind \<^verbatim>\<open>int\<close> returns no error exactly on the
  decimal numerals, with or without a sign, from \<open>-2\<^sup>3\<^sup>1\<close> to \<open>2\<^sup>3\<^sup>1 - 1\<close>, and on every decimal
  numeral outside that range it returns the range error of \<^verbatim>\<open>strconv.ParseInt\<close>. The
  entry for the kind \<^verbatim>\<open>uint\<close> returns no error exactly on the unsigned decimal numerals
  up to \<open>2\<^sup>3\<^sup>2 - 1\<close>, and the range error of \<^verbatim>\<open>strconv.ParseUint\<close> on every larger one. For a
  field of one of the two kinds, the table being the one to convert (no entry for the
  type in the registry), an error of the entry makes \<^verbatim>\<open>set\<close> return the parse error
  with it, the field keeping its value. The width of \<^verbatim>\<open>int\<close> on the platform plays no
  part: the bit size is the constant 32 of the table.
\<close>

theorem int_uint_32_bits:
  "(\<exists>g. defaultBuiltInParsers w IntK = Some g
        \<and> (\<forall>s. (snd (g s) = None)
                = (\<exists>v. decimalInt s = Some v \<and> - (2 ^ 31) \<le> v \<and> v \<le> 2 ^ 31 - 1))
        \<and> (\<forall>s v. decimalInt s = Some v \<longrightarrow> v < - (2 ^ 31) \<or> 2 ^ 31 - 1 < v \<longrightarrow>
                    snd (g s) = Some (NumError ''ParseInt'' s ErrRange)))
 \<and> (\<exists>g. defaultBuiltInParsers w Uint = Some g
        \<and> (\<forall>s. (snd (g s) = None) = (\<exists>n. decimalNat s = Some n \<and> n \<le> 2 ^ 32 - 1))
        \<and> (\<forall>s n. decimalNat s = Some n \<longrightarrow> 2 ^ 32 - 1 < n \<longrightarrow>
                    snd (g s) = Some (NumError ''ParseUint'' s ErrRange)))
 \<and> (kind_of w (Type sf) = IntK \<or> kind_of w (Type sf) = Uint \<longrightarrow>
      funcMap (Type sf) = None \<longrightarrow>
      defaultBuiltInParsers w (kind_of w (Type sf)) = Some g \<longrightarrow> snd (g s) = Some e \<longrightarrow>
      set_field w canSet field sf s funcMap = (field, Some (parseError sf e)))"
proof (intro conjI)
  have a: "(snd (intParser IntK 32 s) = None)
             = (\<exists>v. decimalInt s = Some v \<and> - (2 ^ 31) \<le> v \<and> v \<le> 2 ^ 31 - 1)" for s
    using ParseInt_accepts [of 32 s] by (cases "ParseInt s 32") (simp add: intParser_def)
  have b: "snd (intParser IntK 32 s) = Some (NumError ''ParseInt'' s ErrRange)"
    if "decimalInt s = Some v" "v < - (2 ^ 31) \<or> 2 ^ 31 - 1 < v" for s v
    using ParseInt_decimal [OF that(1), of 32 "2 ^ 31"] that(2)
    by (cases "ParseInt s 32") (auto simp: intParser_def)
  show "\<exists>g. defaultBuiltInParsers w IntK = Some g
        \<and> (\<forall>s. (snd (g s) = None)
                = (\<exists>v. decimalInt s = Some v \<and> - (2 ^ 31) \<le> v \<and> v \<le> 2 ^ 31 - 1))
        \<and> (\<forall>s v. decimalInt s = Some v \<longrightarrow> v < - (2 ^ 31) \<or> 2 ^ 31 - 1 < v \<longrightarrow>
                    snd (g s) = Some (NumError ''ParseInt'' s ErrRange))"
    using a b by (intro exI [of _ "intParser IntK 32"]) (simp add: defaultBuiltInParsers_def)
next
  have a: "(snd (uintParser Uint 32 s) = None) = (\<exists>n. decimalNat s = Some n \<and> n \<le> 2 ^ 32 - 1)" for s
    using ParseUint_accepts [of 32 s] by (cases "ParseUint s 32") (simp add: uintParser_def)
  have b: "snd (uintParser Uint 32 s) = Some (NumError ''ParseUint'' s ErrRange)"
    if "decimalNat s = Some n" "2 ^ 32 - 1 < n" for s n
  proof -
    have "s \<noteq> []" "list_all is_digit s" "n = decimal s"
      using that(1) by (auto simp: decimalNat_def split: if_splits)
    then show ?thesis
      using ParseUint_digits [of s 32] that(2) by (simp add: uintParser_def)
  qed
  show "\<exists>g. defaultBuiltInParsers w Uint = Some g
        \<and> (\<forall>s. (snd (g s) = None) = (\<exists>n. decimalNat s = Some n \<and> n \<le> 2 ^ 32 - 1))
        \<and> (\<forall>s n. decimalNat s = Some n \<longrightarrow> 2 ^ 32 - 1 < n \<longrightarrow>
                    snd (g s) = Some (NumError ''ParseUint'' s ErrRange))"
    using a b by (intro exI [of _ "uintParser Uint 32"]) (simp add: defaultBuiltInParsers_def)
next
  show "kind_of w (Type sf) = IntK \<or> kind_of w (Type sf) = Uint \<longrightarrow>
      funcMap (Type sf) = None \<longrightarrow>
      defaultBuiltInParsers w (kind_of w (Type sf)) = Some g \<longrightarrow> snd (g s) = Some e \<longrightarrow>
      set_field w canSet field sf s funcMap = (field, Some (parseError sf e))"
    by (cases "g s") (auto simp: set_field_def newParseError_def)
qed

text \<open>Two instances: \<open>2\<^sup>3\<^sup>1\<close> for a field of kind \<^verbatim>\<open>int\<close>, \<open>2\<^sup>3\<^sup>2\<close> for one of kind
  \<^verbatim>\<open>uint\<close>, both within 64 bits.\<close>

theorem int_uint_32_bits_witness:
  "set_field (exampleWorld Map.empty) True (VInt 0) portField ''2147483648''
      (defaultCustomParsers (exampleWorld Map.empty))
     = (VInt 0, Some (parseError portField (NumError ''ParseInt'' ''2147483648'' ErrRange)))
   \<and> set_field (exampleWorld Map.empty) True (VUint 0) sizeField ''4294967296''
      (defaultCustomParsers (exampleWorld Map.empty))
     = (VUint 0, Some (parseError sizeField (NumError ''ParseUint'' ''4294967296'' ErrRange)))"
proof -
  let ?w = "exampleWorld Map.empty"
  have d1: "decimalInt ''2147483648'' = Some 2147483648"
    by (simp add: decimalInt_def decimalNat_def decimal_def is_digit_def digit_val_def)
  have d2: "decimalNat ''4294967296'' = Some 4294967296"
    by (simp add: decimalNat_def decimal_def is_digit_def digit_val_def)
  have n1: "defaultCustomParsers ?w (Type portField) = None"
    by (simp add: portField_def defaultCustomParsers_def URLType_def DurationType_def)
  have n2: "defaultCustomParsers ?w (Type sizeField) = None"
    by (simp add: sizeField_def defaultCustomParsers_def URLType_def DurationType_def)
  have k1: "kind_of ?w (Type portField) = IntK" by (simp add: portField_def)
  have k2: "kind_of ?w (Type sizeField) = Uint" by (simp add: sizeField_def)
  from int_uint_32_bits [where w = ?w] obtain gi gu where
        gi: "defaultBuiltInParsers ?w IntK = Some gi"
            "\<forall>s v. decimalInt s = Some v \<longrightarrow> v < - (2 ^ 31) \<or> 2 ^ 31 - 1 < v \<longrightarrow>
                   snd (gi s) = Some (NumError ''ParseInt'' s ErrRange)"
    and gu: "defaultBuiltInParsers ?w Uint = Some gu"
            "\<forall>s n. decimalNat s = Some n \<longrightarrow> 2 ^ 32 - 1 < n \<longrightarrow>
                   snd (gu s) = Some (NumError ''ParseUint'' s ErrRange)"
    by blast
  have e1: "snd (gi ''2147483648'') = Some (NumError ''ParseInt'' ''2147483648'' ErrRange)"
    using gi(2) d1 by simp
  have e2: "snd (gu ''4294967296'') = Some (NumError ''ParseUint'' ''4294967296'' ErrRange)"
    using gu(2) d2 by simp
  show ?thesis
    using int_uint_32_bits [where w = ?w and sf = portField and funcMap = "defaultCustomParsers ?w"
                              and g = gi and s = "''2147483648''" and canSet = True and field = "VInt 0"
                              and e = "NumError ''ParseInt'' ''2147483648'' ErrRange"]
          int_uint_32_bits [where w = ?w and sf = sizeField and funcMap = "defaultCustomParsers ?w"
                              and g = gu and s = "''4294967296''" and canSet = True and field = "VUint 0"
                              and e = "NumError ''ParseUint'' ''4294967296'' ErrRange"]
          k1 k2 n1 n2 gi(1) gu(1) e1 e2
    by simp
qed

section \<open>Unsupported options\<close>

text \<open>
  C6, at a failing input. The tag \<^verbatim>\<open>MODE,bogus,required\<close> carries the option token
  \<^verbatim>\<open>bogus\<close>, and \<^verbatim>\<open>MODE\<close> is set. The loop of \<^verbatim>\<open>get\<close> sets the error for \<^verbatim>\<open>bogus\<close>, then
  the round for \<^verbatim>\<open>required\<close> assigns \<^verbatim>\<open>val, err = getRequired(key)\<close> and the error is
  gone: \<^verbatim>\<open>get\<close> returns the value with no error, and \<^verbatim>\<open>Parse\<close> succeeds and binds the
  field.
\<close>

theorem unsupported_option_swallowed:
  "envOpts (modeField ''MODE,bogus,required'') = [''bogus'', ''required'']
   \<and> get (exampleWorld [''MODE'' \<mapsto> ''fast'']) (modeField ''MODE,bogus,required'') = (''fast'', None)
   \<and> Parse (exampleWorld [''MODE'' \<mapsto> ''fast''])
        (Iface (PtrTo (StructOf [modeField ''MODE,bogus,required''])) (VPtr (Some (VStruct [VString []]))))
      = (Iface (PtrTo (StructOf [modeField ''MODE,bogus,required'']))
               (VPtr (Some (VStruct [VString ''fast'']))), None)"
  by code_simp

end
